theory Spec2Isabelle
  imports Complex_Main
begin

section \<open>Values on the wire\<close>

text \<open>
  The client of \<^verbatim>\<open>src/typescript/src/index.ts\<close> exchanges JSON with a remote
  service. A decoded JSON value is a \<open>json\<close>; JavaScript's \<^verbatim>\<open>undefined\<close> (an absent
  property, an omitted argument) is \<open>None\<close> of \<open>json option\<close>. Every finite double is a
  rational, so a JSON number is a \<open>rat\<close>; integer counts and identifiers are exact in
  JavaScript below \<open>2 ^ 53\<close>, the range the model is about. A string is a list of
  characters and its length the number of them (JavaScript counts UTF-16 units, which
  agrees on ASCII). A decoded object is an association list read by its first binding.
\<close>

datatype json =
    JNull
  | JBool bool
  | JNum rat
  | JStr string
  | JArr "json list"
  | JObj "(string \<times> json) list"

text \<open>JavaScript truthiness, as \<^verbatim>\<open>&&\<close>, \<^verbatim>\<open>||\<close> and \<^verbatim>\<open>?:\<close> test it.\<close>

fun truthy :: "json option \<Rightarrow> bool" where
  "truthy None = False"
| "truthy (Some JNull) = False"
| "truthy (Some (JBool b)) = b"
| "truthy (Some (JNum r)) = (r \<noteq> 0)"
| "truthy (Some (JStr s)) = (s \<noteq> [])"
| "truthy (Some (JArr xs)) = True"
| "truthy (Some (JObj kvs)) = True"

section \<open>Errors\<close>

text \<open>
  Every \<^verbatim>\<open>throw\<close> and every rejected promise is a value of \<open>error\<close>:
  \<^item> \<open>Error m\<close> is \<^verbatim>\<open>throw new Error(m)\<close>;
  \<^item> \<open>EmergentDBError m st b\<close> is an \<^verbatim>\<open>EmergentDBError\<close> whose \<^verbatim>\<open>message\<close>, \<^verbatim>\<open>status\<close> and
    \<^verbatim>\<open>body\<close> are \<open>m\<close>, \<open>st\<close> and \<open>b\<close>; the message is a string, the one
    \<^verbatim>\<open>super(message)\<close> stores;
  \<^item> \<open>ZodError is\<close> is what \<^verbatim>\<open>schema.parse\<close> throws, with its issues;
  \<^item> \<open>FetchError m\<close> is a rejected \<^verbatim>\<open>fetch\<close>, \<open>SyntaxError\<close> a rejected
    \<^verbatim>\<open>resp.json()\<close>, \<open>TypeError\<close> a property read on \<^verbatim>\<open>null\<close>.
\<close>

datatype path_elem = Key string | Idx nat

datatype issue_code =
    invalid_type
  | not_integer
  | too_small
  | too_big

record issue =
  path :: "path_elem list"
  code :: issue_code

datatype error =
    Error string
  | EmergentDBError string nat json
  | ZodError "issue list"
  | FetchError string
  | SyntaxError
  | TypeError

section \<open>Schemas\<close>

text \<open>
  The schemas are built with the package \<^verbatim>\<open>dhi\<close>, which is not part of the
  repository; README.md and test-compat.mjs present it as a drop-in for Zod, and the
  combinators below follow Zod's contract for the constructors index.ts uses:
  \<^verbatim>\<open>parse\<close> either returns the typed value or throws one error holding the issues of
  all fields, a property that is absent is an issue unless the field is
  \<^verbatim>\<open>.optional()\<close> or has a \<^verbatim>\<open>.default(v)\<close>, and \<^verbatim>\<open>.default(v)\<close> replaces an absent
  input by \<open>v\<close>. A schema is the function its \<^verbatim>\<open>parse\<close> computes, from the input
  (\<open>None\<close> when absent) to the issues or the value of the inferred type.
\<close>

type_synonym 'a parsed = "issue list + 'a"
type_synonym 'a zod = "json option \<Rightarrow> 'a parsed"

definition issue_here :: "issue_code \<Rightarrow> 'a parsed" where
  "issue_here c = Inl [\<lparr>path = [], code = c\<rparr>]"

definition under :: "path_elem \<Rightarrow> 'a parsed \<Rightarrow> 'a parsed" where
  "under p r = (case r of
      Inl is \<Rightarrow> Inl (map (\<lambda>i. i\<lparr>path := p # path i\<rparr>) is)
    | Inr v \<Rightarrow> Inr v)"

text \<open>Applying a constructor to one more parsed field; issues of both sides are kept.\<close>

definition ap :: "('a \<Rightarrow> 'b) parsed \<Rightarrow> 'a parsed \<Rightarrow> 'b parsed" where
  "ap pf pa = (case pf of
      Inl is1 \<Rightarrow> (case pa of Inl is2 \<Rightarrow> Inl (is1 @ is2) | Inr a \<Rightarrow> Inl is1)
    | Inr f \<Rightarrow> (case pa of Inl is2 \<Rightarrow> Inl is2 | Inr a \<Rightarrow> Inr (f a)))"

definition z_boolean :: "bool zod" where
  "z_boolean v = (case v of Some (JBool b) \<Rightarrow> Inr b | _ \<Rightarrow> issue_here invalid_type)"

definition z_number :: "rat zod" where
  "z_number v = (case v of Some (JNum r) \<Rightarrow> Inr r | _ \<Rightarrow> issue_here invalid_type)"

text \<open>\<^verbatim>\<open>z.number().int()\<close>\<close>

definition z_number_int :: "int zod" where
  "z_number_int v = (case v of
      Some (JNum r) \<Rightarrow> (if of_int \<lfloor>r\<rfloor> = r then Inr \<lfloor>r\<rfloor> else issue_here not_integer)
    | _ \<Rightarrow> issue_here invalid_type)"

text \<open>\<^verbatim>\<open>z.number().int().positive().lte(100)\<close>\<close>

definition z_number_int_positive_lte :: "int \<Rightarrow> int zod" where
  "z_number_int_positive_lte hi v = (case z_number_int v of
      Inl is \<Rightarrow> Inl is
    | Inr n \<Rightarrow> (if \<not> 0 < n then issue_here too_small
               else if \<not> n \<le> hi then issue_here too_big
               else Inr n))"

definition z_string :: "string zod" where
  "z_string v = (case v of Some (JStr s) \<Rightarrow> Inr s | _ \<Rightarrow> issue_here invalid_type)"

text \<open>\<^verbatim>\<open>z.string().max(n)\<close>\<close>

definition z_string_max :: "nat \<Rightarrow> string zod" where
  "z_string_max n v = (case z_string v of
      Inl is \<Rightarrow> Inl is
    | Inr s \<Rightarrow> (if n < length s then issue_here too_big else Inr s))"

fun parse_items :: "'a zod \<Rightarrow> nat \<Rightarrow> json list \<Rightarrow> 'a list parsed" where
  "parse_items item i [] = Inr []"
| "parse_items item i (x # xs) =
     ap (ap (Inr (#)) (under (Idx i) (item (Some x)))) (parse_items item (Suc i) xs)"

definition z_array :: "'a zod \<Rightarrow> 'a list zod" where
  "z_array item v = (case v of
      Some (JArr xs) \<Rightarrow> parse_items item 0 xs
    | _ \<Rightarrow> issue_here invalid_type)"

text \<open>\<^verbatim>\<open>z.record(z.string(), z.any())\<close>: any object, its properties as they are.\<close>

definition z_record_any :: "(string \<times> json) list zod" where
  "z_record_any v = (case v of Some (JObj kvs) \<Rightarrow> Inr kvs | _ \<Rightarrow> issue_here invalid_type)"

definition z_optional :: "'a zod \<Rightarrow> 'a option zod" where
  "z_optional s v = (case v of
      None \<Rightarrow> Inr None
    | Some x \<Rightarrow> (case s (Some x) of Inl is \<Rightarrow> Inl is | Inr a \<Rightarrow> Inr (Some a)))"

definition z_default :: "'a zod \<Rightarrow> 'a \<Rightarrow> 'a zod" where
  "z_default s d v = (case v of None \<Rightarrow> Inr d | Some x \<Rightarrow> s (Some x))"

text \<open>
  \<^verbatim>\<open>z.object({...})\<close>: the input must be an object; each declared field is parsed from
  the property of its name, absent properties as \<open>None\<close>.
\<close>

definition field :: "(string \<times> json) list \<Rightarrow> string \<Rightarrow> 'a zod \<Rightarrow> 'a parsed" where
  "field kvs name s = under (Key name) (s (map_of kvs name))"

definition z_object :: "((string \<times> json) list \<Rightarrow> 'a parsed) \<Rightarrow> 'a zod" where
  "z_object shape v = (case v of
      Some (JObj kvs) \<Rightarrow> shape kvs
    | _ \<Rightarrow> issue_here invalid_type)"

subsection \<open>Response schemas\<close>

record insert_result =
  ir_success :: bool
  ir_id :: int
  ir_namespace :: string
  ir_upserted :: bool

definition InsertResultSchema :: "insert_result zod" where
  "InsertResultSchema = z_object (\<lambda>kvs.
     ap (ap (ap (ap (Inr insert_result.make)
       (field kvs ''success'' z_boolean))
       (field kvs ''id'' z_number_int))
       (field kvs ''namespace'' z_string))
       (field kvs ''upserted'' z_boolean))"

record batch_insert_result =
  success :: bool
  ids :: "int list"
  count :: int
  namespace :: string
  new_count :: int
  upserted_count :: int

definition BatchInsertResultSchema :: "batch_insert_result zod" where
  "BatchInsertResultSchema = z_object (\<lambda>kvs.
     ap (ap (ap (ap (ap (ap (Inr batch_insert_result.make)
       (field kvs ''success'' z_boolean))
       (field kvs ''ids'' (z_array z_number_int)))
       (field kvs ''count'' z_number_int))
       (field kvs ''namespace'' z_string))
       (field kvs ''new_count'' z_number_int))
       (field kvs ''upserted_count'' z_number_int))"

record search_result =
  res_id :: int
  score :: rat
  metadata :: "(string \<times> json) list option"

definition SearchResultSchema :: "search_result zod" where
  "SearchResultSchema = z_object (\<lambda>kvs.
     ap (ap (ap (Inr search_result.make)
       (field kvs ''id'' z_number_int))
       (field kvs ''score'' z_number))
       (field kvs ''metadata'' (z_optional z_record_any)))"

record search_response =
  results :: "search_result list"
  sr_count :: int
  sr_namespace :: string

definition SearchResponseSchema :: "search_response zod" where
  "SearchResponseSchema = z_object (\<lambda>kvs.
     ap (ap (ap (Inr search_response.make)
       (field kvs ''results'' (z_array SearchResultSchema)))
       (field kvs ''count'' z_number_int))
       (field kvs ''namespace'' (z_default z_string ''default'')))"

record delete_result =
  deleted :: bool
  dr_id :: int
  dr_namespace :: string

definition DeleteResultSchema :: "delete_result zod" where
  "DeleteResultSchema = z_object (\<lambda>kvs.
     ap (ap (ap (Inr delete_result.make)
       (field kvs ''deleted'' z_boolean))
       (field kvs ''id'' z_number_int))
       (field kvs ''namespace'' z_string))"

subsection \<open>Input schemas\<close>

record search_options =
  k :: "rat option"
  includeMetadata :: "bool option"
  opt_namespace :: "string option"

text \<open>
  \<open>SearchOptionsSchema\<close> reads an options object; \<open>search_options_json\<close> is the object a
  caller's \<open>search_options\<close> value is, absent fields left out.
\<close>

record checked_search_options =
  checked_k :: "int option"
  checked_includeMetadata :: "bool option"
  checked_namespace :: "string option"

definition SearchOptionsSchema :: "checked_search_options zod" where
  "SearchOptionsSchema = z_object (\<lambda>kvs.
     ap (ap (ap (Inr checked_search_options.make)
       (field kvs ''k'' (z_optional (z_number_int_positive_lte 100))))
       (field kvs ''includeMetadata'' (z_optional z_boolean)))
       (field kvs ''namespace'' (z_optional (z_string_max 64))))"

definition present :: "string \<Rightarrow> json option \<Rightarrow> (string \<times> json) list" where
  "present name v = (case v of None \<Rightarrow> [] | Some x \<Rightarrow> [(name, x)])"

definition search_options_json :: "search_options \<Rightarrow> json" where
  "search_options_json opts = JObj
     (present ''k'' (map_option JNum (k opts))
      @ present ''includeMetadata'' (map_option JBool (includeMetadata opts))
      @ present ''namespace'' (map_option JStr (opt_namespace opts)))"

record vector_entry =
  ve_id :: rat
  vector :: "rat list"
  ve_metadata :: "(string \<times> json) list option"

text \<open>What \<^verbatim>\<open>JSON.stringify\<close> writes for an entry: an absent \<^verbatim>\<open>metadata\<close> is left out.\<close>

definition vector_entry_json :: "vector_entry \<Rightarrow> json" where
  "vector_entry_json e = JObj
     ([(''id'', JNum (ve_id e)), (''vector'', JArr (map JNum (vector e)))]
      @ present ''metadata'' (map_option JObj (ve_metadata e)))"

section \<open>Transport\<close>

text \<open>
  The network is outside the program. A \<open>server\<close> answers a request given the requests
  already sent, so that it can answer each round trip differently; the state the client
  threads is the list of requests it has sent, oldest first. A round trip ends in a
  rejected \<^verbatim>\<open>fetch\<close> or in a response with a status and a body, \<open>None\<close> when the body is
  not JSON. The request's body is the JSON that \<^verbatim>\<open>JSON.stringify\<close> writes.
\<close>

record http_request =
  http_method :: string
  url :: string
  headers :: "(string \<times> string) list"
  body :: "json option"

datatype fetch_result =
    FetchFailed string
  | Response nat "json option"

type_synonym server = "http_request list \<Rightarrow> http_request \<Rightarrow> fetch_result"

record client =
  apiKey :: string
  baseUrl :: string

text \<open>\<^verbatim>\<open>resp.ok\<close>\<close>

definition ok :: "nat \<Rightarrow> bool" where
  "ok status = (200 \<le> status \<and> status \<le> 299)"

text \<open>The decimal digits of a status, for the template \<^verbatim>\<open>`HTTP ${resp.status}`\<close>.\<close>

definition digit_char :: "nat \<Rightarrow> char" where
  "digit_char d = ''0123456789'' ! d"

function string_of_nat :: "nat \<Rightarrow> string" where
  "string_of_nat n =
     (if n < 10 then [digit_char n]
      else string_of_nat (n div 10) @ [digit_char (n mod 10)])"
  by pat_completeness auto
termination
  by (relation "measure id") auto

declare string_of_nat.simps [simp del]

subsection \<open>String forms\<close>

text \<open>
  \<^verbatim>\<open>super(message)\<close> in the constructor of \<open>EmergentDBError\<close> stores the string form of
  its argument, JavaScript's \<^verbatim>\<open>ToString\<close>. For a number that is the shortest decimal that
  reads back as the same double, laid out plainly between \<open>10\<^sup>-\<^sup>6\<close> and \<open>10\<^sup>2\<^sup>1\<close> and with an
  exponent outside. \<open>to_double\<close> rounds a positive rational to the nearest double, ties to
  the even significand, \<open>None\<close> standing for infinity; a \<open>JNum\<close> holds the value of a
  decoded double, which \<open>to_double\<close> leaves as it is.
\<close>

function decimal_digits :: "int \<Rightarrow> string" where
  "decimal_digits s =
     (if s < 10 then [digit_char (nat s)]
      else decimal_digits (s div 10) @ [digit_char (nat (s mod 10))])"
  by pat_completeness auto
termination
  by (relation "measure nat") auto

declare decimal_digits.simps [simp del]

text \<open>\<open>ilog b n\<close> is the integer part of the logarithm of \<open>n \<ge> 1\<close> to the base \<open>b\<close>.\<close>

function ilog :: "int \<Rightarrow> int \<Rightarrow> int" where
  "ilog b n = (if b < 2 \<or> n < b then 0 else ilog b (n div b) + 1)"
  by pat_completeness auto
termination
  by (relation "measure (\<lambda>(b, n). nat n)") (auto simp: int_div_less_self)

declare ilog.simps [simp del]

definition power_of :: "int \<Rightarrow> int \<Rightarrow> rat" where
  "power_of b e = (if 0 \<le> e then of_int b ^ nat e else 1 / of_int b ^ nat (- e))"

text \<open>For \<open>x > 0\<close>, the \<open>e\<close> with \<open>b\<^sup>e \<le> x < b\<^sup>e\<^sup>+\<^sup>1\<close>.\<close>

definition ilog_rat :: "int \<Rightarrow> rat \<Rightarrow> int" where
  "ilog_rat b x =
     (if 1 \<le> x then ilog b \<lfloor>x\<rfloor>
      else - (ilog b (\<lceil>1 / x\<rceil> - 1) + 1))"

definition round_half_even :: "rat \<Rightarrow> int" where
  "round_half_even y =
     (let f = \<lfloor>y\<rfloor>; d = y - of_int f
      in if d < 1 / 2 then f else if 1 / 2 < d then f + 1
         else if even f then f else f + 1)"

definition to_double :: "rat \<Rightarrow> rat option" where
  "to_double x =
     (let q = max (ilog_rat 2 x) (- 1022) - 52;
          r = of_int (round_half_even (x / power_of 2 q)) * power_of 2 q
      in if power_of 2 1024 \<le> r then None else Some r)"

text \<open>
  The decimal of \<open>len\<close> digits that reads back as the double \<open>d\<close>, if there is one, as
  digits and exponent; of two, the nearer to \<open>d\<close>, and the even one when they are as near.
  \<open>n\<close> is the number of digits before the point in \<open>d\<close>.
\<close>

definition decimal_candidate :: "rat \<Rightarrow> int \<Rightarrow> int \<Rightarrow> (int \<times> int) option" where
  "decimal_candidate d n len =
     (let p = n - len;
          lo = \<lfloor>d / power_of 10 p\<rfloor>;
          hi = lo + 1;
          ok_lo = (to_double (of_int lo * power_of 10 p) = Some d);
          ok_hi = (to_double (of_int hi * power_of 10 p) = Some d);
          below = d - of_int lo * power_of 10 p;
          above = of_int hi * power_of 10 p - d
      in if ok_lo \<and> ok_hi then
           (if below < above then Some (lo, p)
            else if above < below then Some (hi, p)
            else if even lo then Some (lo, p) else Some (hi, p))
         else if ok_lo then Some (lo, p)
         else if ok_hi then Some (hi, p)
         else None)"

text \<open>The first of 1 to 17 digits that does; 17 digits tell any two doubles apart.\<close>

function find_decimal :: "rat \<Rightarrow> int \<Rightarrow> int \<Rightarrow> int \<times> int" where
  "find_decimal d n len =
     (if 17 < len then (\<lfloor>d / power_of 10 (n - 17)\<rfloor>, n - 17)
      else case decimal_candidate d n len of
             Some c \<Rightarrow> c
           | None \<Rightarrow> find_decimal d n (len + 1))"
  by pat_completeness auto
termination
  by (relation "measure (\<lambda>(d, n, len). nat (18 - len))") auto

declare find_decimal.simps [simp del]

definition shortest_decimal :: "rat \<Rightarrow> int \<times> int" where
  "shortest_decimal d = find_decimal d (ilog_rat 10 d + 1) 1"

function strip_zeros :: "int \<Rightarrow> int \<Rightarrow> int \<times> int" where
  "strip_zeros s p =
     (if 0 < s \<and> s mod 10 = 0 then strip_zeros (s div 10) (p + 1) else (s, p))"
  by pat_completeness auto
termination
  by (relation "measure (\<lambda>(s, p). nat s)") auto

declare strip_zeros.simps [simp del]

text \<open>The layout of the digits \<open>s\<close> times \<open>10\<^sup>p\<close>, \<open>n\<close> being where the point falls.\<close>

definition format_decimal :: "int \<Rightarrow> int \<Rightarrow> string" where
  "format_decimal s p =
     (let ds = decimal_digits s; len = int (length ds); n = p + len
      in if len \<le> n \<and> n \<le> 21 then ds @ replicate (nat (n - len)) (CHR ''0'')
         else if 0 < n \<and> n \<le> 21 then take (nat n) ds @ ''.'' @ drop (nat n) ds
         else if - 6 < n \<and> n \<le> 0 then ''0.'' @ replicate (nat (- n)) (CHR ''0'') @ ds
         else (let e = n - 1;
                   ex = (if e < 0 then ''-'' else ''+'') @ decimal_digits \<bar>e\<bar>
               in if len = 1 then ds @ ''e'' @ ex
                  else take 1 ds @ ''.'' @ drop 1 ds @ ''e'' @ ex))"

definition number_to_string :: "rat \<Rightarrow> string" where
  "number_to_string x =
     (if x = 0 then ''0''
      else case to_double \<bar>x\<bar> of
          None \<Rightarrow> (if x < 0 then ''-Infinity'' else ''Infinity'')
        | Some d \<Rightarrow>
            if d = 0 then ''0''
            else (if x < 0 then ''-'' else '''')
                 @ (case shortest_decimal d of (s, p) \<Rightarrow>
                      (case strip_zeros s p of (s', p') \<Rightarrow> format_decimal s' p')))"

text \<open>
  The string form of a decoded value. An array is its elements' forms joined by commas,
  \<^verbatim>\<open>null\<close> elements as nothing. An object is \<^verbatim>\<open>[object Object]\<close>, unless it has a
  property \<^verbatim>\<open>toString\<close> of its own: that hides the inherited method and is no function,
  and the conversion throws a \<open>TypeError\<close>.
\<close>

fun to_string :: "json \<Rightarrow> error + string"
  and join_elements :: "json list \<Rightarrow> error + string" where
  "to_string JNull = Inr ''null''"
| "to_string (JBool b) = Inr (if b then ''true'' else ''false'')"
| "to_string (JNum r) = Inr (number_to_string r)"
| "to_string (JStr s) = Inr s"
| "to_string (JArr xs) = join_elements xs"
| "to_string (JObj kvs) =
     (if map_of kvs ''toString'' = None then Inr ''[object Object]'' else Inl TypeError)"
| "join_elements [] = Inr []"
| "join_elements (x # xs) =
     (case (case x of JNull \<Rightarrow> Inr [] | _ \<Rightarrow> to_string x) of
        Inl e \<Rightarrow> Inl e
      | Inr s \<Rightarrow>
          (if xs = [] then Inr s
           else case join_elements xs of
                  Inl e \<Rightarrow> Inl e
                | Inr t \<Rightarrow> Inr (s @ '','' @ t)))"

text \<open>
  \<^verbatim>\<open>throw new EmergentDBError(message, status, body)\<close>: what is thrown is the new error,
  or what converting the message threw.
\<close>

definition new_EmergentDBError :: "json \<Rightarrow> nat \<Rightarrow> json \<Rightarrow> error" where
  "new_EmergentDBError message status data =
     (case to_string message of
        Inl e \<Rightarrow> e
      | Inr m \<Rightarrow> EmergentDBError m status data)"

text \<open>
  \<^verbatim>\<open>data.error\<close>: reading a property of \<^verbatim>\<open>null\<close> throws; an object gives the property
  or \<^verbatim>\<open>undefined\<close>; a boolean, a number, a string and an array have no such property.
\<close>

fun get_error :: "json \<Rightarrow> error + json option" where
  "get_error JNull = Inl TypeError"
| "get_error (JObj kvs) = Inr (map_of kvs ''error'')"
| "get_error _ = Inr None"

definition build_request :: "client \<Rightarrow> string \<Rightarrow> string \<Rightarrow> json option \<Rightarrow> http_request" where
  "build_request c m p b =
     \<lparr>http_method = m,
      url = baseUrl c @ p,
      headers = [(''Authorization'', ''Bearer '' @ apiKey c),
                 (''Content-Type'', ''application/json''),
                 (''User-Agent'', ''emergentdb-js/0.1.0'')],
      body = (if truthy b then b else None)\<rparr>"

definition request ::
  "client \<Rightarrow> server \<Rightarrow> string \<Rightarrow> string \<Rightarrow> 'a zod \<Rightarrow> json option
    \<Rightarrow> http_request list \<Rightarrow> (error + 'a) \<times> http_request list" where
  "request c srv m p schema b sent =
     (let req = build_request c m p b; sent' = sent @ [req] in
      case srv sent req of
        FetchFailed msg \<Rightarrow> (Inl (FetchError msg), sent')
      | Response status None \<Rightarrow> (Inl SyntaxError, sent')
      | Response status (Some data) \<Rightarrow>
          if \<not> ok status then
            (case get_error data of
               Inl e \<Rightarrow> (Inl e, sent')
             | Inr err \<Rightarrow>
                 (Inl (new_EmergentDBError
                        (case err of
                           Some v \<Rightarrow> if truthy err then v
                                     else JStr (''HTTP '' @ string_of_nat status)
                         | None \<Rightarrow> JStr (''HTTP '' @ string_of_nat status))
                        status data), sent'))
          else
            (case schema (Some data) of
               Inl is \<Rightarrow> (Inl (ZodError is), sent')
             | Inr v \<Rightarrow> (Inr v, sent')))"

section \<open>Operations\<close>

text \<open>
  The spread \<^verbatim>\<open>...(namespace && namespace !== "default" ? { namespace } : {})\<close> that
  \<open>insert\<close>, \<open>batchInsert\<close>, \<open>search\<close> and \<open>delete\<close> each end their payload with.
\<close>

definition namespace_spread :: "string option \<Rightarrow> (string \<times> json) list" where
  "namespace_spread ns =
     (if truthy (map_option JStr ns) \<and> ns \<noteq> Some ''default''
      then present ''namespace'' (map_option JStr ns) else [])"

text \<open>
  The object literal each operation hands to \<open>request\<close>, as \<^verbatim>\<open>JSON.stringify\<close> writes
  it: a property whose value is \<^verbatim>\<open>undefined\<close> is left out.
\<close>

definition insert_payload ::
  "rat \<Rightarrow> rat list \<Rightarrow> (string \<times> json) list option \<Rightarrow> string option \<Rightarrow> json" where
  "insert_payload i v md ns = JObj
     ([(''id'', JNum i), (''vector'', JArr (map JNum v))]
      @ present ''metadata'' (map_option JObj md)
      @ namespace_spread ns)"

definition insert ::
  "client \<Rightarrow> server \<Rightarrow> rat \<Rightarrow> rat list \<Rightarrow> (string \<times> json) list option \<Rightarrow> string option
    \<Rightarrow> http_request list \<Rightarrow> (error + insert_result) \<times> http_request list" where
  "insert c srv i v md ns sent =
     request c srv ''POST'' ''/vectors/insert'' InsertResultSchema
       (Some (insert_payload i v md ns)) sent"

definition batchInsert_payload :: "vector_entry list \<Rightarrow> string option \<Rightarrow> json" where
  "batchInsert_payload vectors ns = JObj
     ([(''vectors'', JArr (map vector_entry_json vectors))] @ namespace_spread ns)"

definition batchInsert ::
  "client \<Rightarrow> server \<Rightarrow> vector_entry list \<Rightarrow> string option
    \<Rightarrow> http_request list \<Rightarrow> (error + batch_insert_result) \<times> http_request list" where
  "batchInsert c srv vectors ns sent =
     (if length vectors > 1000
      then (Inl (Error ''Batch insert supports max 1000 vectors per request''), sent)
      else request c srv ''POST'' ''/vectors/batch_insert'' BatchInsertResultSchema
             (Some (batchInsert_payload vectors ns)) sent)"

text \<open>\<^verbatim>\<open>options?.k\<close> and its like: the field of the options when both are there.\<close>

definition opt_field :: "search_options option \<Rightarrow> (search_options \<Rightarrow> 'a option) \<Rightarrow> 'a option" where
  "opt_field options f = (case options of None \<Rightarrow> None | Some opts \<Rightarrow> f opts)"

definition search_payload :: "rat list \<Rightarrow> search_options option \<Rightarrow> json" where
  "search_payload v options = JObj
     ([(''vector'', JArr (map JNum v)),
       (''k'', JNum (case opt_field options k of None \<Rightarrow> 10 | Some n \<Rightarrow> n)),
       (''include_metadata'',
          JBool (case opt_field options includeMetadata of None \<Rightarrow> False | Some b \<Rightarrow> b))]
      @ namespace_spread (opt_field options opt_namespace))"

definition search ::
  "client \<Rightarrow> server \<Rightarrow> rat list \<Rightarrow> search_options option
    \<Rightarrow> http_request list \<Rightarrow> (error + search_response) \<times> http_request list" where
  "search c srv v options sent =
     request c srv ''POST'' ''/vectors/search'' SearchResponseSchema
       (Some (search_payload v options)) sent"

definition delete_payload :: "rat \<Rightarrow> string option \<Rightarrow> json" where
  "delete_payload i ns = JObj ([(''id'', JNum i)] @ namespace_spread ns)"

definition delete ::
  "client \<Rightarrow> server \<Rightarrow> rat \<Rightarrow> string option
    \<Rightarrow> http_request list \<Rightarrow> (error + delete_result) \<times> http_request list" where
  "delete c srv i ns sent =
     request c srv ''POST'' ''/vectors/delete'' DeleteResultSchema
       (Some (delete_payload i ns)) sent"

subsection \<open>Chunked insertion\<close>

record batch_insert_all_result =
  all_ids :: "int list"
  all_count :: int
  all_new_count :: int
  all_upserted_count :: int

definition BATCH_SIZE :: nat where
  "BATCH_SIZE = 1000"

text \<open>\<^verbatim>\<open>xs.slice(a, b)\<close> for \<open>0 \<le> a \<le> b\<close>: the end is clamped to the length.\<close>

definition slice :: "'a list \<Rightarrow> nat \<Rightarrow> nat \<Rightarrow> 'a list" where
  "slice xs a b = take (b - a) (drop a xs)"

text \<open>
  The \<^verbatim>\<open>for\<close> loop of \<open>batchInsertAll\<close>, from index \<open>i\<close> with the accumulators
  \<^verbatim>\<open>allIds\<close>, \<^verbatim>\<open>totalNew\<close> and \<^verbatim>\<open>totalUpserted\<close>; a rejected \<open>batchInsert\<close> leaves it.
\<close>

function batchInsertAll_loop ::
  "client \<Rightarrow> server \<Rightarrow> vector_entry list \<Rightarrow> string option \<Rightarrow> nat
    \<Rightarrow> int list \<Rightarrow> int \<Rightarrow> int
    \<Rightarrow> http_request list \<Rightarrow> (error + int list \<times> int \<times> int) \<times> http_request list" where
  "batchInsertAll_loop c srv vectors ns i allIds totalNew totalUpserted sent =
     (if i < length vectors then
        (case batchInsert c srv (slice vectors i (i + BATCH_SIZE)) ns sent of
           (Inl e, sent') \<Rightarrow> (Inl e, sent')
         | (Inr result, sent') \<Rightarrow>
             batchInsertAll_loop c srv vectors ns (i + BATCH_SIZE)
               (allIds @ ids result)
               (totalNew + new_count result)
               (totalUpserted + upserted_count result) sent')
      else (Inr (allIds, totalNew, totalUpserted), sent))"
  by pat_completeness auto
termination
  by (relation "measure (\<lambda>(c, srv, vectors, ns, i, rest). length vectors - i)")
     (auto simp: BATCH_SIZE_def)

declare batchInsertAll_loop.simps [simp del]

definition batchInsertAll ::
  "client \<Rightarrow> server \<Rightarrow> vector_entry list \<Rightarrow> string option
    \<Rightarrow> http_request list \<Rightarrow> (error + batch_insert_all_result) \<times> http_request list" where
  "batchInsertAll c srv vectors ns sent =
     (case batchInsertAll_loop c srv vectors ns 0 [] 0 0 sent of
        (Inl e, sent') \<Rightarrow> (Inl e, sent')
      | (Inr (allIds, totalNew, totalUpserted), sent') \<Rightarrow>
          (Inr \<lparr>all_ids = allIds,
                all_count = int (length allIds),
                all_new_count = totalNew,
                all_upserted_count = totalUpserted\<rparr>, sent'))"

section \<open>Chunks, sent requests and sample exchanges\<close>

text \<open>
  The partition the specification describes: contiguous pieces of at most \<open>n\<close> entries,
  in the original order, each but the last of exactly \<open>n\<close>.
\<close>

function chunks_of :: "nat \<Rightarrow> 'a list \<Rightarrow> 'a list list" where
  "chunks_of n xs =
     (if n = 0 \<or> xs = [] then [] else take n xs # chunks_of n (drop n xs))"
  by pat_completeness auto
termination
  by (relation "measure (\<lambda>(n, xs). length xs)") auto

declare chunks_of.simps [simp del]

text \<open>The request \<open>batchInsert\<close> sends for a chunk, and a property of a sent payload.\<close>

definition batchInsert_request :: "client \<Rightarrow> string option \<Rightarrow> vector_entry list \<Rightarrow> http_request" where
  "batchInsert_request c ns vectors =
     build_request c ''POST'' ''/vectors/batch_insert'' (Some (batchInsert_payload vectors ns))"

definition payload_field :: "string \<Rightarrow> http_request \<Rightarrow> json option" where
  "payload_field name req = (case body req of Some (JObj kvs) \<Rightarrow> map_of kvs name | _ \<Rightarrow> None)"

text \<open>One \<open>batchInsert\<close> per chunk of a list of chunks, as the loop runs them.\<close>

fun run_chunks ::
  "client \<Rightarrow> server \<Rightarrow> string option \<Rightarrow> vector_entry list list
    \<Rightarrow> int list \<Rightarrow> int \<Rightarrow> int
    \<Rightarrow> http_request list \<Rightarrow> (error + int list \<times> int \<times> int) \<times> http_request list" where
  "run_chunks c srv ns [] allIds totalNew totalUpserted sent =
     (Inr (allIds, totalNew, totalUpserted), sent)"
| "run_chunks c srv ns (chunk # chunks) allIds totalNew totalUpserted sent =
     (case batchInsert c srv chunk ns sent of
        (Inl e, sent') \<Rightarrow> (Inl e, sent')
      | (Inr result, sent') \<Rightarrow>
          run_chunks c srv ns chunks
            (allIds @ ids result)
            (totalNew + new_count result)
            (totalUpserted + upserted_count result) sent')"

definition demo_client :: client where
  "demo_client = \<lparr>apiKey = ''emdb_test'', baseUrl = ''https://api.emergentdb.com''\<rparr>"

definition demo_entry :: vector_entry where
  "demo_entry = \<lparr>ve_id = 1, vector = [0, 1], ve_metadata = None\<rparr>"

text \<open>A service that stores one entry per request and numbers it by the round trip.\<close>

definition batch_response :: "int \<Rightarrow> int \<Rightarrow> json" where
  "batch_response i n = JObj
     [(''success'', JBool True),
      (''ids'', JArr [JNum (of_int i)]),
      (''count'', JNum (of_int n)),
      (''namespace'', JStr ''default''),
      (''new_count'', JNum 1),
      (''upserted_count'', JNum 0)]"

definition counting_server :: server where
  "counting_server sent req = Response 200 (Some (batch_response (int (length sent) + 1) 1))"

text \<open>A service whose \<^verbatim>\<open>count\<close> disagrees with its \<^verbatim>\<open>ids\<close>.\<close>

definition miscounting_server :: server where
  "miscounting_server sent req = Response 200 (Some (batch_response 1 5))"

text \<open>A service that refuses the second round trip.\<close>

definition second_refused_server :: server where
  "second_refused_server sent req =
     (if length sent = 1
      then Response 402 (Some (JObj [(''error'', JStr ''Vector capacity exceeded'')]))
      else Response 200 (Some (batch_response (int (length sent) + 1) 1)))"

definition refusing_server :: server where
  "refusing_server sent req =
     Response 402 (Some (JObj [(''error'', JStr ''Vector capacity exceeded'')]))"

definition empty_error_server :: server where
  "empty_error_server sent req = Response 500 (Some (JObj [(''error'', JStr [])]))"

text \<open>Refusals whose \<^verbatim>\<open>error\<close> is a number, and without one.\<close>

definition numeric_error_server :: server where
  "numeric_error_server sent req = Response 404 (Some (JObj [(''error'', JNum 42)]))"

definition bare_error_server :: server where
  "bare_error_server sent req = Response 503 (Some (JObj []))"

text \<open>Search responses: one without \<^verbatim>\<open>count\<close>, one without \<^verbatim>\<open>namespace\<close>.\<close>

definition no_count_server :: server where
  "no_count_server sent req =
     Response 200 (Some (JObj [(''results'', JArr []), (''namespace'', JStr ''default'')]))"

definition no_namespace_server :: server where
  "no_namespace_server sent req =
     Response 200 (Some (JObj
       [(''results'', JArr [JObj [(''id'', JNum 7), (''score'', JNum (1 / 4))]]),
        (''count'', JNum 1)]))"

text \<open>Search options outside what \<open>SearchOptionsSchema\<close> allows.\<close>

definition zero_k_options :: search_options where
  "zero_k_options = \<lparr>k = Some 0, includeMetadata = None, opt_namespace = None\<rparr>"

definition out_of_range_options :: search_options where
  "out_of_range_options =
     \<lparr>k = Some 1000, includeMetadata = None, opt_namespace = Some (replicate 65 (CHR ''a''))\<rparr>"

section \<open>Parsing lemmas\<close>

lemma ap_Inr_iff: "ap pf pa = Inr b \<longleftrightarrow> (\<exists>f a. pf = Inr f \<and> pa = Inr a \<and> b = f a)"
  by (auto simp: ap_def split: sum.splits)

lemma ap_Inl_right: "pa = Inl is2 \<Longrightarrow> \<exists>is. ap pf pa = Inl is"
  by (simp add: ap_def split: sum.splits)

lemma ap_Inl_left: "pf = Inl is1 \<Longrightarrow> \<exists>is. ap pf pa = Inl is"
  by (simp add: ap_def split: sum.splits)

lemma under_Inr_iff: "under p r = Inr v \<longleftrightarrow> r = Inr v"
  by (simp add: under_def split: sum.splits)

lemma under_Inl: "r = Inl is \<Longrightarrow> \<exists>is'. under p r = Inl is'"
  by (simp add: under_def)

lemma field_Inr_iff: "field kvs name s = Inr v \<longleftrightarrow> s (map_of kvs name) = Inr v"
  by (simp add: field_def under_Inr_iff)

lemma z_number_int_Inr_iff: "z_number_int v = Inr n \<longleftrightarrow> v = Some (JNum (of_int n))"
  by (auto simp: z_number_int_def issue_here_def split: option.splits json.splits)

lemma parse_items_int_Inr_iff:
  "parse_items z_number_int i xs = Inr ns \<longleftrightarrow> xs = map (\<lambda>n. JNum (of_int n)) ns"
  by (induction xs arbitrary: i ns)
     (auto simp: ap_Inr_iff under_Inr_iff z_number_int_Inr_iff)

lemma z_array_int_Inr_iff:
  "z_array z_number_int v = Inr ns \<longleftrightarrow> v = Some (JArr (map (\<lambda>n. JNum (of_int n)) ns))"
  by (auto simp: z_array_def issue_here_def parse_items_int_Inr_iff split: option.splits json.splits)

lemma request_sent:
  "snd (request c srv m p schema b sent) = sent @ [build_request c m p b]"
  by (simp add: request_def Let_def split: fetch_result.splits option.splits sum.splits)

lemma to_string_throws:
  "to_string v = Inl e \<Longrightarrow> e = TypeError"
  "join_elements vs = Inl e \<Longrightarrow> e = TypeError"
  by (induction v and vs arbitrary: e and e rule: to_string_join_elements.induct)
     (auto split: if_splits sum.splits json.splits)

lemma new_EmergentDBError_not_Error: "new_EmergentDBError v status data \<noteq> Error msg"
  by (auto simp: new_EmergentDBError_def split: sum.splits dest: to_string_throws(1))

lemma new_EmergentDBError_string [simp]:
  "new_EmergentDBError (JStr s) status data = EmergentDBError s status data"
  by (simp add: new_EmergentDBError_def)

lemma request_not_Error: "fst (request c srv m p schema b sent) \<noteq> Inl (Error msg)"
  by (cases b)
     (auto simp add: request_def Let_def new_EmergentDBError_not_Error
        split: fetch_result.splits option.splits sum.splits json.splits
        elim: get_error.elims)

section \<open>Chunking lemmas\<close>

lemma chunks_of_Nil [simp]: "chunks_of n [] = []"
  by (simp add: chunks_of.simps)

lemma chunks_of_step:
  "0 < n \<Longrightarrow> xs \<noteq> [] \<Longrightarrow> chunks_of n xs = take n xs # chunks_of n (drop n xs)"
  by (subst chunks_of.simps) simp

lemma concat_chunks_of: "0 < n \<Longrightarrow> concat (chunks_of n xs) = xs"
proof (induction n xs rule: chunks_of.induct)
  case (1 n xs)
  show ?case
  proof (cases "xs = []")
    case True
    then show ?thesis by simp
  next
    case False
    with 1 show ?thesis by (simp add: chunks_of_step)
  qed
qed

lemma chunks_of_bounds:
  "ch \<in> set (chunks_of n xs) \<Longrightarrow> 0 < length ch \<and> length ch \<le> n"
proof (induction n xs rule: chunks_of.induct)
  case (1 n xs)
  show ?case
  proof (cases "n = 0 \<or> xs = []")
    case True
    with 1(2) show ?thesis by (auto simp: chunks_of.simps)
  next
    case False
    with 1 show ?thesis by (auto simp: chunks_of_step)
  qed
qed

lemma chunks_of_full:
  "Suc j < length (chunks_of n xs) \<Longrightarrow> length (chunks_of n xs ! j) = n"
proof (induction n xs arbitrary: j rule: chunks_of.induct)
  case (1 n xs)
  show ?case
  proof (cases "n = 0 \<or> xs = []")
    case True
    with 1(2) show ?thesis by (auto simp: chunks_of.simps)
  next
    case False
    then have step: "chunks_of n xs = take n xs # chunks_of n (drop n xs)"
      by (simp add: chunks_of_step)
    show ?thesis
    proof (cases j)
      case 0
      with 1(2) step have "chunks_of n (drop n xs) \<noteq> []" by auto
      then have "drop n xs \<noteq> []" by auto
      then have "n < length xs" by simp
      with 0 step show ?thesis by simp
    next
      case (Suc j')
      with 1(2) step have "Suc j' < length (chunks_of n (drop n xs))" by simp
      with 1(1) False have "length (chunks_of n (drop n xs) ! j') = n" by blast
      with Suc step show ?thesis by simp
    qed
  qed
qed

lemma chunks_of_2500:
  assumes "length xs = 2500"
  shows "map length (chunks_of 1000 xs) = [1000, 1000, 500]"
proof -
  have a: "xs \<noteq> []" "drop 1000 xs \<noteq> []" "drop 1000 (drop 1000 xs) \<noteq> []"
    "drop 1000 (drop 1000 (drop 1000 xs)) = []"
    using assms by auto
  show ?thesis
    using a assms by (simp add: chunks_of_step)
qed

lemma loop_run_chunks:
  "batchInsertAll_loop c srv vectors ns i allIds totalNew totalUpserted sent =
   run_chunks c srv ns (chunks_of BATCH_SIZE (drop i vectors)) allIds totalNew totalUpserted sent"
proof (induction c srv vectors ns i allIds totalNew totalUpserted sent
       rule: batchInsertAll_loop.induct)
  case (1 c srv vectors ns i allIds totalNew totalUpserted sent)
  show ?case
  proof (cases "i < length vectors")
    case False
    then show ?thesis by (simp add: batchInsertAll_loop.simps)
  next
    case True
    then have ne: "drop i vectors \<noteq> []" by simp
    have step: "chunks_of BATCH_SIZE (drop i vectors) =
        slice vectors i (i + BATCH_SIZE) # chunks_of BATCH_SIZE (drop (i + BATCH_SIZE) vectors)"
      using ne by (simp add: chunks_of_step BATCH_SIZE_def slice_def add.commute)
    show ?thesis
      using True 1
      by (subst batchInsertAll_loop.simps) (simp add: step split: prod.splits sum.splits)
  qed
qed

section \<open>The loop, chunk by chunk\<close>

lemma batchInsert_sent:
  "length ch \<le> 1000 \<Longrightarrow>
   snd (batchInsert c srv ch ns sent) = sent @ [batchInsert_request c ns ch]"
  by (simp add: batchInsert_def batchInsert_request_def request_sent)

lemma run_chunks_success:
  assumes "\<forall>ch\<in>set chs. length ch \<le> 1000"
    and "run_chunks c srv ns chs a n u sent = (Inr (a', n', u'), sent')"
  shows "\<exists>rs. length rs = length chs
      \<and> sent' = sent @ map (batchInsert_request c ns) chs
      \<and> (\<forall>j<length chs.
            batchInsert c srv (chs ! j) ns (sent @ map (batchInsert_request c ns) (take j chs))
            = (Inr (rs ! j), sent @ map (batchInsert_request c ns) (take (Suc j) chs)))
      \<and> a' = a @ concat (map ids rs)
      \<and> n' = n + sum_list (map new_count rs)
      \<and> u' = u + sum_list (map upserted_count rs)"
  using assms
proof (induction chs arbitrary: a n u sent)
  case Nil
  then show ?case by simp
next
  case (Cons ch chs)
  let ?q = "batchInsert_request c ns"
  from Cons.prems(1) have len: "length ch \<le> 1000" and rest: "\<forall>x\<in>set chs. length x \<le> 1000"
    by simp_all
  obtain o1 s1 where b: "batchInsert c srv ch ns sent = (o1, s1)"
    by (cases "batchInsert c srv ch ns sent")
  with batchInsert_sent [OF len, of c srv ns sent] have s1: "s1 = sent @ [?q ch]"
    by simp
  from Cons.prems(2) b obtain r where o1: "o1 = Inr r"
    by (cases o1) auto
  with Cons.prems(2) b have run:
    "run_chunks c srv ns chs (a @ ids r) (n + new_count r) (u + upserted_count r) s1
     = (Inr (a', n', u'), sent')"
    by simp
  from Cons.IH [OF rest run] obtain rs where rs:
    "length rs = length chs"
    "sent' = s1 @ map ?q chs"
    "\<forall>j<length chs. batchInsert c srv (chs ! j) ns (s1 @ map ?q (take j chs))
        = (Inr (rs ! j), s1 @ map ?q (take (Suc j) chs))"
    "a' = (a @ ids r) @ concat (map ids rs)"
    "n' = (n + new_count r) + sum_list (map new_count rs)"
    "u' = (u + upserted_count r) + sum_list (map upserted_count rs)"
    by blast
  have each: "batchInsert c srv ((ch # chs) ! j) ns (sent @ map ?q (take j (ch # chs)))
        = (Inr ((r # rs) ! j), sent @ map ?q (take (Suc j) (ch # chs)))"
    if "j < length (ch # chs)" for j
  proof (cases j)
    case 0
    with b o1 s1 show ?thesis by simp
  next
    case (Suc j')
    with that have "j' < length chs" by simp
    with rs(3) have "batchInsert c srv (chs ! j') ns (s1 @ map ?q (take j' chs))
        = (Inr (rs ! j'), s1 @ map ?q (take (Suc j') chs))"
      by blast
    with Suc s1 show ?thesis by simp
  qed
  show ?case
  proof (intro exI [of _ "r # rs"] conjI allI impI)
    show "length (r # rs) = length (ch # chs)" using rs(1) by simp
    show "sent' = sent @ map ?q (ch # chs)" using rs(2) s1 by simp
    show "a' = a @ concat (map ids (r # rs))" using rs(4) by simp
    show "n' = n + sum_list (map new_count (r # rs))" using rs(5) by simp
    show "u' = u + sum_list (map upserted_count (r # rs))" using rs(6) by simp
  qed (rule each)
qed

lemma run_chunks_failure:
  assumes "\<forall>ch\<in>set chs. length ch \<le> 1000"
    and "i < length chs"
    and "\<forall>j<i. \<exists>r. fst (batchInsert c srv (chs ! j) ns
                        (sent @ map (batchInsert_request c ns) (take j chs))) = Inr r"
    and "fst (batchInsert c srv (chs ! i) ns
                (sent @ map (batchInsert_request c ns) (take i chs))) = Inl e"
  shows "run_chunks c srv ns chs a n u sent
         = (Inl e, sent @ map (batchInsert_request c ns) (take (Suc i) chs))"
  using assms
proof (induction chs arbitrary: i a n u sent)
  case Nil
  then show ?case by simp
next
  case (Cons ch chs)
  let ?q = "batchInsert_request c ns"
  from Cons.prems(1) have len: "length ch \<le> 1000" and rest: "\<forall>x\<in>set chs. length x \<le> 1000"
    by simp_all
  obtain o1 s1 where b: "batchInsert c srv ch ns sent = (o1, s1)"
    by (cases "batchInsert c srv ch ns sent")
  with batchInsert_sent [OF len, of c srv ns sent] have s1: "s1 = sent @ [?q ch]"
    by simp
  show ?case
  proof (cases i)
    case 0
    with Cons.prems(4) b have "o1 = Inl e" by simp
    with 0 b s1 show ?thesis by simp
  next
    case (Suc i')
    from Cons.prems(3) Suc have "\<exists>r. fst (batchInsert c srv ((ch # chs) ! 0) ns
        (sent @ map ?q (take 0 (ch # chs)))) = Inr r"
      by blast
    with b obtain r where o1: "o1 = Inr r" by auto
    have i': "i' < length chs" using Cons.prems(2) Suc by simp
    have before: "\<forall>j<i'. \<exists>r. fst (batchInsert c srv (chs ! j) ns
        (s1 @ map ?q (take j chs))) = Inr r"
    proof (intro allI impI)
      fix j assume "j < i'"
      then have "Suc j < i" using Suc by simp
      with Cons.prems(3) have "\<exists>r. fst (batchInsert c srv ((ch # chs) ! Suc j) ns
          (sent @ map ?q (take (Suc j) (ch # chs)))) = Inr r"
        by blast
      then show "\<exists>r. fst (batchInsert c srv (chs ! j) ns (s1 @ map ?q (take j chs))) = Inr r"
        using s1 by simp
    qed
    have at: "fst (batchInsert c srv (chs ! i') ns (s1 @ map ?q (take i' chs))) = Inl e"
      using Cons.prems(4) Suc s1 by simp
    from Cons.IH [OF rest i' before at]
    have "run_chunks c srv ns chs (a @ ids r) (n + new_count r) (u + upserted_count r) s1
          = (Inl e, s1 @ map ?q (take (Suc i') chs))" .
    with b o1 s1 Suc show ?thesis by simp
  qed
qed

lemma build_request_body:
  "body (build_request c m p (Some (JObj kvs))) = Some (JObj kvs)"
  by (simp add: build_request_def)

lemma namespace_spread_lookup:
  "map_of (namespace_spread ns) ''namespace'' =
     (if ns = None \<or> ns = Some [] \<or> ns = Some ''default'' then None else map_option JStr ns)"
  by (cases ns) (auto simp: namespace_spread_def present_def)

section \<open>Requests and responses of the sample exchanges\<close>

lemma field_absent_required:
  "map_of kvs name = None \<Longrightarrow> \<exists>is. field kvs name z_number_int = Inl is"
  by (simp add: field_def under_def z_number_int_def issue_here_def)

lemma SearchResponseSchema_no_count:
  assumes "map_of kvs ''count'' = None"
  shows "\<exists>is. SearchResponseSchema (Some (JObj kvs)) = Inl is"
proof -
  from field_absent_required [OF assms] obtain is1
    where "field kvs ''count'' z_number_int = Inl is1" ..
  then obtain is2
    where "ap (ap (Inr search_response.make) (field kvs ''results'' (z_array SearchResultSchema)))
             (field kvs ''count'' z_number_int) = Inl is2"
    using ap_Inl_right by blast
  then show ?thesis
    unfolding SearchResponseSchema_def z_object_def
    using ap_Inl_left by fastforce
qed

lemma no_count_issues:
  "SearchResponseSchema (Some (JObj [(''results'', JArr []), (''namespace'', JStr ''default'')]))
   = Inl [\<lparr>path = [Key ''count''], code = invalid_type\<rparr>]"
  by (simp add: SearchResponseSchema_def z_object_def field_def under_def ap_def z_array_def
        z_number_int_def z_default_def z_string_def issue_here_def)

lemma BatchInsertResultSchema_fields:
  assumes "BatchInsertResultSchema (Some (JObj kvs)) = Inr r"
  shows "map_of kvs ''ids'' = Some (JArr (map (\<lambda>n. JNum (of_int n)) (ids r)))
       \<and> map_of kvs ''count'' = Some (JNum (of_int (count r)))
       \<and> map_of kvs ''new_count'' = Some (JNum (of_int (new_count r)))
       \<and> map_of kvs ''upserted_count'' = Some (JNum (of_int (upserted_count r)))"
  using assms
  by (auto simp: BatchInsertResultSchema_def z_object_def ap_Inr_iff field_Inr_iff
        z_number_int_Inr_iff z_array_int_Inr_iff batch_insert_result.make_def)

lemma batchInsertAll_count:
  assumes "batchInsertAll c srv vectors ns sent = (Inr agg, sent')"
  shows "all_count agg = int (length (all_ids agg))"
  using assms
  by (auto simp: batchInsertAll_def split: prod.splits sum.splits)

lemma batch_response_parsed:
  "BatchInsertResultSchema (Some (batch_response i n))
   = Inr \<lparr>success = True, ids = [i], count = n, namespace = ''default'',
          new_count = 1, upserted_count = 0\<rparr>"
  by (simp add: BatchInsertResultSchema_def z_object_def batch_response_def field_def under_def
        ap_def z_boolean_def z_array_def z_number_int_def z_string_def
        batch_insert_result.make_def)

lemma batchInsert_miscounting:
  "batchInsert demo_client miscounting_server [demo_entry] None []
   = (Inr \<lparr>success = True, ids = [1], count = 5, namespace = ''default'',
           new_count = 1, upserted_count = 0\<rparr>,
      [batchInsert_request demo_client None [demo_entry]])"
  by (simp add: batchInsert_def request_def Let_def miscounting_server_def ok_def
        batch_response_parsed batchInsert_request_def)

lemma batchInsertAll_miscounting:
  "batchInsertAll demo_client miscounting_server [demo_entry] None []
   = (Inr \<lparr>all_ids = [1], all_count = 1, all_new_count = 1, all_upserted_count = 0\<rparr>,
      [batchInsert_request demo_client None [demo_entry]])"
  by (simp add: batchInsertAll_def batchInsertAll_loop.simps slice_def BATCH_SIZE_def
        batchInsert_miscounting)

lemma z_k_rejects:
  assumes "n < 1 \<or> 100 < n"
  shows "\<exists>is. z_optional (z_number_int_positive_lte 100) (Some (JNum n)) = Inl is"
proof (cases "of_int \<lfloor>n\<rfloor> = n")
  case False
  then show ?thesis
    by (simp add: z_optional_def z_number_int_positive_lte_def z_number_int_def issue_here_def)
next
  case True
  then obtain i :: int where n: "n = of_int i" by metis
  with assms have "\<not> 0 < i \<or> \<not> i \<le> 100" by auto
  with n show ?thesis
    by (auto simp: z_optional_def z_number_int_positive_lte_def z_number_int_def issue_here_def)
qed

lemma z_namespace_rejects:
  assumes "64 < length s"
  shows "\<exists>is. z_optional (z_string_max 64) (Some (JStr s)) = Inl is"
  using assms by (simp add: z_optional_def z_string_max_def z_string_def issue_here_def)

lemma options_k_lookup:
  "map_of (present ''k'' (map_option JNum (k opts))
      @ present ''includeMetadata'' (map_option JBool (includeMetadata opts))
      @ present ''namespace'' (map_option JStr (opt_namespace opts))) ''k''
   = map_option JNum (k opts)"
  by (cases "k opts"; cases "includeMetadata opts"; cases "opt_namespace opts")
     (simp_all add: present_def)

lemma options_namespace_lookup:
  "map_of (present ''k'' (map_option JNum (k opts))
      @ present ''includeMetadata'' (map_option JBool (includeMetadata opts))
      @ present ''namespace'' (map_option JStr (opt_namespace opts))) ''namespace''
   = map_option JStr (opt_namespace opts)"
  by (cases "k opts"; cases "includeMetadata opts"; cases "opt_namespace opts")
     (simp_all add: present_def)

lemma SearchOptionsSchema_k:
  assumes "k opts = Some n" and "n < 1 \<or> 100 < n"
  shows "\<exists>is. SearchOptionsSchema (Some (search_options_json opts)) = Inl is"
proof -
  from z_k_rejects [OF assms(2)] obtain is0
    where "z_optional (z_number_int_positive_lte 100) (Some (JNum n)) = Inl is0" ..
  with assms(1) have "\<exists>is. field (present ''k'' (map_option JNum (k opts))
      @ present ''includeMetadata'' (map_option JBool (includeMetadata opts))
      @ present ''namespace'' (map_option JStr (opt_namespace opts))) ''k''
        (z_optional (z_number_int_positive_lte 100)) = Inl is"
    unfolding field_def options_k_lookup by (simp add: under_def)
  then show ?thesis
    unfolding SearchOptionsSchema_def z_object_def search_options_json_def
    by (auto simp: ap_def split: sum.splits)
qed

lemma SearchOptionsSchema_namespace:
  assumes "opt_namespace opts = Some s" and "64 < length s"
  shows "\<exists>is. SearchOptionsSchema (Some (search_options_json opts)) = Inl is"
proof -
  from z_namespace_rejects [OF assms(2)] obtain is0
    where "z_optional (z_string_max 64) (Some (JStr s)) = Inl is0" ..
  with assms(1) have "\<exists>is. field (present ''k'' (map_option JNum (k opts))
      @ present ''includeMetadata'' (map_option JBool (includeMetadata opts))
      @ present ''namespace'' (map_option JStr (opt_namespace opts))) ''namespace''
        (z_optional (z_string_max 64)) = Inl is"
    unfolding field_def options_namespace_lookup by (simp add: under_def)
  then show ?thesis
    unfolding SearchOptionsSchema_def z_object_def search_options_json_def
    by (auto simp: ap_def split: sum.splits)
qed

lemma search_payload_k:
  "payload_field ''k'' (build_request c ''POST'' ''/vectors/search''
      (Some (search_payload v (Some opts))))
   = Some (JNum (case k opts of None \<Rightarrow> 10 | Some n \<Rightarrow> n))"
  by (simp add: payload_field_def search_payload_def build_request_body opt_field_def)

lemma no_namespace_parsed:
  "SearchResponseSchema (Some (JObj
       [(''results'', JArr [JObj [(''id'', JNum 7), (''score'', JNum (1 / 4))]]),
        (''count'', JNum 1)]))
   = Inr \<lparr>results = [\<lparr>res_id = 7, score = 1 / 4, metadata = None\<rparr>],
           sr_count = 1, sr_namespace = ''default''\<rparr>"
  by (simp add: SearchResponseSchema_def z_object_def field_def under_def ap_def z_default_def
        search_response.make_def z_array_def SearchResultSchema_def
        z_number_int_def z_number_def z_optional_def search_result.make_def)

section \<open>Chunked insertion against the sample services\<close>

lemma chunks_of_1000_bound: "\<forall>ch\<in>set (chunks_of 1000 vectors). length ch \<le> 1000"
  using chunks_of_bounds by blast

lemma batchInsertAll_run_chunks:
  "batchInsertAll c srv vectors ns sent =
     (case run_chunks c srv ns (chunks_of 1000 vectors) [] 0 0 sent of
        (Inl e, sent') \<Rightarrow> (Inl e, sent')
      | (Inr (allIds, totalNew, totalUpserted), sent') \<Rightarrow>
          (Inr \<lparr>all_ids = allIds, all_count = int (length allIds),
                all_new_count = totalNew, all_upserted_count = totalUpserted\<rparr>, sent'))"
  by (simp add: batchInsertAll_def loop_run_chunks BATCH_SIZE_def)

lemma sum_list_counts:
  "\<forall>r\<in>set rs. count r = int (length (ids r)) \<Longrightarrow>
   int (length (concat (map ids rs))) = sum_list (map count rs)"
  by (induction rs) auto

lemma chunks_of_replicate_2500:
  "chunks_of 1000 (replicate 2500 x) = [replicate 1000 x, replicate 1000 x, replicate 500 x]"
proof -
  have a: "chunks_of 1000 (replicate 2500 x) = replicate 1000 x # chunks_of 1000 (replicate 1500 x)"
    by (subst chunks_of.simps) simp
  have b: "chunks_of 1000 (replicate 1500 x) = replicate 1000 x # chunks_of 1000 (replicate 500 x)"
    by (subst chunks_of.simps) simp
  have c: "chunks_of 1000 (replicate 500 x) = replicate 500 x # chunks_of 1000 []"
    by (subst chunks_of.simps) simp
  from a b c show ?thesis by simp
qed

lemma chunks_of_replicate_1001:
  "chunks_of 1000 (replicate 1001 x) = [replicate 1000 x, [x]]"
proof -
  have a: "chunks_of 1000 (replicate 1001 x) = replicate 1000 x # chunks_of 1000 (replicate 1 x)"
    by (subst chunks_of.simps) simp
  have b: "chunks_of 1000 (replicate 1 x) = [x] # chunks_of 1000 []"
    by (subst chunks_of.simps) simp
  from a b show ?thesis by simp
qed

lemma batchInsert_counting:
  "length vs \<le> 1000 \<Longrightarrow>
   batchInsert c counting_server vs ns sent
   = (Inr \<lparr>success = True, ids = [int (length sent) + 1], count = 1, namespace = ''default'',
           new_count = 1, upserted_count = 0\<rparr>,
      sent @ [batchInsert_request c ns vs])"
  by (simp add: batchInsert_def request_def Let_def counting_server_def ok_def
        batch_response_parsed batchInsert_request_def)

lemma batchInsertAll_counting_2500:
  "batchInsertAll demo_client counting_server (replicate 2500 demo_entry) None []
   = (Inr \<lparr>all_ids = [1, 2, 3], all_count = 3, all_new_count = 3, all_upserted_count = 0\<rparr>,
      [batchInsert_request demo_client None (replicate 1000 demo_entry),
       batchInsert_request demo_client None (replicate 1000 demo_entry),
       batchInsert_request demo_client None (replicate 500 demo_entry)])"
  by (simp add: batchInsertAll_run_chunks chunks_of_replicate_2500 batchInsert_counting)

lemma length_three: "length xs = 3 \<Longrightarrow> xs = [xs ! 0, xs ! 1, xs ! 2]"
  by (auto simp: numeral_3_eq_3 length_Suc_conv)

lemma batchInsert_second_refused:
  "length vs \<le> 1000 \<Longrightarrow>
   batchInsert c second_refused_server vs ns sent
   = (if length sent = 1
      then (Inl (EmergentDBError ''Vector capacity exceeded'' 402
                  (JObj [(''error'', JStr ''Vector capacity exceeded'')])),
            sent @ [batchInsert_request c ns vs])
      else (Inr \<lparr>success = True, ids = [int (length sent) + 1], count = 1,
                  namespace = ''default'', new_count = 1, upserted_count = 0\<rparr>,
            sent @ [batchInsert_request c ns vs]))"
  by (simp add: batchInsert_def request_def Let_def second_refused_server_def ok_def
        batch_response_parsed batchInsert_request_def)

section \<open>The string form of 42\<close>

lemma ilog_2_42: "ilog 2 42 = 5"
  by (simp add: ilog.simps)

lemma ilog_10_42: "ilog 10 42 = 1"
  by (simp add: ilog.simps)

lemma to_double_40: "to_double 40 = Some 40"
  by (simp add: to_double_def ilog_rat_def ilog.simps power_of_def round_half_even_def Let_def)

lemma to_double_50: "to_double 50 = Some 50"
  by (simp add: to_double_def ilog_rat_def ilog.simps power_of_def round_half_even_def Let_def)

lemma to_double_42: "to_double 42 = Some 42"
  by (simp add: to_double_def ilog_rat_def ilog.simps power_of_def round_half_even_def Let_def)

lemma to_double_43: "to_double 43 = Some 43"
  by (simp add: to_double_def ilog_rat_def ilog.simps power_of_def round_half_even_def Let_def)

lemma floor_42_10: "\<lfloor>(21 :: rat) / 5\<rfloor> = 4"
  by (simp add: floor_eq_iff)

lemma decimal_candidate_42_1: "decimal_candidate 42 2 1 = None"
  by (simp add: decimal_candidate_def power_of_def Let_def floor_42_10 to_double_40 to_double_50)

lemma decimal_candidate_42_2: "decimal_candidate 42 2 2 = Some (42, 0)"
  by (simp add: decimal_candidate_def power_of_def Let_def to_double_42 to_double_43)

lemma shortest_decimal_42: "shortest_decimal 42 = (42, 0)"
  by (simp add: shortest_decimal_def ilog_rat_def ilog_10_42 find_decimal.simps
        decimal_candidate_42_1 decimal_candidate_42_2)

lemma number_to_string_42: "number_to_string 42 = ''42''"
  by (simp add: number_to_string_def to_double_42 shortest_decimal_42 strip_zeros.simps
        format_decimal_def decimal_digits.simps digit_char_def Let_def)

section \<open>Claims\<close>

text \<open>
  C8. For the empty input sequence, \<open>batchInsertAll\<close> sends no request (the list of sent
  requests is returned as it was) and returns the aggregate with no ids and with
  \<open>count\<close>, \<open>new_count\<close> and \<open>upserted_count\<close> all 0.
\<close>

theorem batchInsertAll_empty:
  "batchInsertAll c srv [] ns sent
   = (Inr \<lparr>all_ids = [], all_count = 0, all_new_count = 0, all_upserted_count = 0\<rparr>, sent)"
  by (simp add: batchInsertAll_def batchInsertAll_loop.simps)

text \<open>
  C6. \<open>batchInsert\<close> with more than 1000 vectors raises its error on the client and sends
  nothing; with at most 1000 the check does not raise: the call is the request itself,
  exactly one request is sent, and no outcome is that client-side error.
\<close>

theorem batchInsert_limit:
  "(length vectors > 1000 \<longrightarrow>
      batchInsert c srv vectors ns sent
      = (Inl (Error ''Batch insert supports max 1000 vectors per request''), sent))
   \<and> (length vectors \<le> 1000 \<longrightarrow>
      batchInsert c srv vectors ns sent
      = request c srv ''POST'' ''/vectors/batch_insert'' BatchInsertResultSchema
          (Some (batchInsert_payload vectors ns)) sent
      \<and> snd (batchInsert c srv vectors ns sent) = sent @ [batchInsert_request c ns vectors]
      \<and> (\<forall>msg. fst (batchInsert c srv vectors ns sent) \<noteq> Inl (Error msg)))"
  by (simp add: batchInsert_def request_sent request_not_Error batchInsert_request_def)

theorem batchInsert_limit_witness:
  "length (replicate 1001 demo_entry) > 1000
   \<and> batchInsert demo_client counting_server (replicate 1001 demo_entry) None []
     = (Inl (Error ''Batch insert supports max 1000 vectors per request''), [])
   \<and> length (replicate 1000 demo_entry) \<le> 1000
   \<and> snd (batchInsert demo_client counting_server (replicate 1000 demo_entry) None [])
     = [] @ [batchInsert_request demo_client None (replicate 1000 demo_entry)]"
proof -
  have over: "length (replicate 1001 demo_entry) > 1000" by simp
  have within: "length (replicate 1000 demo_entry) \<le> 1000" by simp
  show ?thesis
    using over within
      batchInsert_limit [where vectors = "replicate 1001 demo_entry" and c = demo_client
            and srv = counting_server and ns = None and sent = "[]"]
      batchInsert_limit [where vectors = "replicate 1000 demo_entry" and c = demo_client
            and srv = counting_server and ns = None and sent = "[]"]
    by blast
qed

text \<open>
  C2, as the code has it. The payload that \<open>insert\<close>, \<open>batchInsert\<close> (for at most 1000
  vectors, when it sends one), \<open>search\<close> and \<open>delete\<close> send has no \<^verbatim>\<open>namespace\<close> field
  when the namespace argument is absent, is the empty string or is \<^verbatim>\<open>"default"\<close>; for
  every other string the field is that string. The claim as written wants the empty
  string sent; the test \<^verbatim>\<open>namespace && ...\<close> leaves it out.
\<close>

theorem namespace_on_the_wire:
  "payload_field ''namespace'' (last (snd (insert c srv i v md ns sent)))
     = (if ns = None \<or> ns = Some [] \<or> ns = Some ''default'' then None else map_option JStr ns)
   \<and> (length vectors \<le> 1000 \<longrightarrow>
       payload_field ''namespace'' (last (snd (batchInsert c srv vectors ns sent)))
       = (if ns = None \<or> ns = Some [] \<or> ns = Some ''default'' then None
          else map_option JStr ns))
   \<and> payload_field ''namespace'' (last (snd (search c srv v options sent)))
     = (if opt_field options opt_namespace = None \<or> opt_field options opt_namespace = Some []
           \<or> opt_field options opt_namespace = Some ''default'' then None
        else map_option JStr (opt_field options opt_namespace))
   \<and> payload_field ''namespace'' (last (snd (delete c srv i ns sent)))
     = (if ns = None \<or> ns = Some [] \<or> ns = Some ''default'' then None else map_option JStr ns)"
proof (intro conjI impI)
  show "payload_field ''namespace'' (last (snd (insert c srv i v md ns sent)))
     = (if ns = None \<or> ns = Some [] \<or> ns = Some ''default'' then None else map_option JStr ns)"
    by (cases md)
       (simp_all add: insert_def request_sent insert_payload_def payload_field_def
          build_request_body present_def namespace_spread_lookup)
next
  assume "length vectors \<le> 1000"
  then show "payload_field ''namespace'' (last (snd (batchInsert c srv vectors ns sent)))
       = (if ns = None \<or> ns = Some [] \<or> ns = Some ''default'' then None
          else map_option JStr ns)"
    by (simp add: batchInsert_def request_sent batchInsert_payload_def payload_field_def
          build_request_body namespace_spread_lookup)
next
  show "payload_field ''namespace'' (last (snd (search c srv v options sent)))
     = (if opt_field options opt_namespace = None \<or> opt_field options opt_namespace = Some []
           \<or> opt_field options opt_namespace = Some ''default'' then None
        else map_option JStr (opt_field options opt_namespace))"
    by (simp add: search_def request_sent search_payload_def payload_field_def
          build_request_body namespace_spread_lookup)
next
  show "payload_field ''namespace'' (last (snd (delete c srv i ns sent)))
     = (if ns = None \<or> ns = Some [] \<or> ns = Some ''default'' then None else map_option JStr ns)"
    by (simp add: delete_def request_sent delete_payload_def payload_field_def
          build_request_body namespace_spread_lookup)
qed

theorem namespace_on_the_wire_witness:
  "length [demo_entry] \<le> 1000
   \<and> payload_field ''namespace''
       (last (snd (batchInsert demo_client counting_server [demo_entry] (Some ''production'') [])))
     = Some (JStr ''production'')
   \<and> payload_field ''namespace''
       (last (snd (batchInsert demo_client counting_server [demo_entry] (Some ''default'') [])))
     = None"
  using namespace_on_the_wire [where c = demo_client and srv = counting_server
          and vectors = "[demo_entry]" and ns = "Some ''production''" and sent = "[]"]
    namespace_on_the_wire [where c = demo_client and srv = counting_server
          and vectors = "[demo_entry]" and ns = "Some ''default''" and sent = "[]"]
  by simp

text \<open>
  C2 as written fails: \<open>delete\<close> called with the empty string as namespace sends a
  payload without the field.
\<close>

theorem namespace_empty_counterexample:
  "payload_field ''namespace''
     (last (snd (delete demo_client refusing_server 1 (Some []) []))) = None"
  by (simp add: delete_def request_sent delete_payload_def payload_field_def
        build_request_body namespace_spread_lookup)


text \<open>
  C5, as the code has it. A response whose status is outside 200..299 and whose decoded
  body is not \<^verbatim>\<open>null\<close> makes \<open>request\<close> raise one \<open>EmergentDBError\<close> with the status
  and the body. Its message is \<^verbatim>\<open>HTTP <status>\<close> when the body's \<^verbatim>\<open>error\<close> property is
  absent or falsy, and the string form of that property when it is truthy and has one:
  the property itself when it is a non-empty string. The outcome is the same for every
  schema: the schema is not consulted. The claim as written takes the message from any
  \<^verbatim>\<open>error\<close> property that is present; \<^verbatim>\<open>data.error || ...\<close> drops a falsy one.
\<close>

theorem request_error_normalized:
  assumes "srv sent (build_request c m p b) = Response status (Some data)"
    and "\<not> ok status"
    and "get_error data = Inr err"
  shows "(\<not> truthy err \<longrightarrow>
            request c srv m p schema b sent
            = (Inl (EmergentDBError (''HTTP '' @ string_of_nat status) status data),
               sent @ [build_request c m p b]))
         \<and> (\<forall>v msg. err = Some v \<and> truthy err \<and> to_string v = Inr msg \<longrightarrow>
            request c srv m p schema b sent
            = (Inl (EmergentDBError msg status data), sent @ [build_request c m p b]))
         \<and> (\<forall>s. err = Some (JStr s) \<and> s \<noteq> [] \<longrightarrow>
            request c srv m p schema b sent
            = (Inl (EmergentDBError s status data), sent @ [build_request c m p b]))"
  using assms
  by (cases err) (auto simp: request_def Let_def new_EmergentDBError_def)

theorem request_error_normalized_witness:
  "fst (delete demo_client refusing_server 1 None [])
     = Inl (EmergentDBError ''Vector capacity exceeded'' 402
              (JObj [(''error'', JStr ''Vector capacity exceeded'')]))
   \<and> fst (delete demo_client numeric_error_server 1 None [])
     = Inl (EmergentDBError ''42'' 404 (JObj [(''error'', JNum 42)]))
   \<and> fst (delete demo_client bare_error_server 1 None [])
     = Inl (EmergentDBError ''HTTP 503'' 503 (JObj []))"
proof -
  let ?req = "build_request demo_client ''POST'' ''/vectors/delete''
                (Some (delete_payload 1 None))"
  have a1: "refusing_server [] ?req
      = Response 402 (Some (JObj [(''error'', JStr ''Vector capacity exceeded'')]))"
    by (simp add: refusing_server_def)
  have b1: "\<not> ok 402" by (simp add: ok_def)
  have c1: "get_error (JObj [(''error'', JStr ''Vector capacity exceeded'')])
      = Inr (Some (JStr ''Vector capacity exceeded''))"
    by simp
  have a2: "numeric_error_server [] ?req = Response 404 (Some (JObj [(''error'', JNum 42)]))"
    by (simp add: numeric_error_server_def)
  have b2: "\<not> ok 404" by (simp add: ok_def)
  have c2: "get_error (JObj [(''error'', JNum 42)]) = Inr (Some (JNum 42))"
    by simp
  have d2: "truthy (Some (JNum 42)) \<and> to_string (JNum 42) = Inr ''42''"
    by (simp add: number_to_string_42)
  have a3: "bare_error_server [] ?req = Response 503 (Some (JObj []))"
    by (simp add: bare_error_server_def)
  have b3: "\<not> ok 503" by (simp add: ok_def)
  have c3: "get_error (JObj []) = Inr None"
    by simp
  have d3: "''HTTP '' @ string_of_nat 503 = ''HTTP 503''"
    by (simp add: string_of_nat.simps digit_char_def)
  from request_error_normalized [where srv = refusing_server and sent = "[]"
      and c = demo_client and m = "''POST''" and p = "''/vectors/delete''"
      and b = "Some (delete_payload 1 None)" and schema = DeleteResultSchema, OF a1 b1 c1]
  have first: "fst (delete demo_client refusing_server 1 None [])
     = Inl (EmergentDBError ''Vector capacity exceeded'' 402
              (JObj [(''error'', JStr ''Vector capacity exceeded'')]))"
    by (simp add: delete_def)
  from request_error_normalized [where srv = numeric_error_server and sent = "[]"
      and c = demo_client and m = "''POST''" and p = "''/vectors/delete''"
      and b = "Some (delete_payload 1 None)" and schema = DeleteResultSchema, OF a2 b2 c2] d2
  have second: "fst (delete demo_client numeric_error_server 1 None [])
     = Inl (EmergentDBError ''42'' 404 (JObj [(''error'', JNum 42)]))"
    by (simp add: delete_def)
  from request_error_normalized [where srv = bare_error_server and sent = "[]"
      and c = demo_client and m = "''POST''" and p = "''/vectors/delete''"
      and b = "Some (delete_payload 1 None)" and schema = DeleteResultSchema, OF a3 b3 c3] d3
  have third: "fst (delete demo_client bare_error_server 1 None [])
     = Inl (EmergentDBError ''HTTP 503'' 503 (JObj []))"
    by (simp add: delete_def)
  from first second third show ?thesis by (intro conjI)
qed

text \<open>
  C5 as written fails: a 500 response whose body has the empty string as \<^verbatim>\<open>error\<close>
  gives the message \<^verbatim>\<open>HTTP 500\<close>, not the property.
\<close>

theorem request_empty_error_counterexample:
  "delete demo_client empty_error_server 1 None []
   = (Inl (EmergentDBError ''HTTP 500'' 500 (JObj [(''error'', JStr [])])),
      [build_request demo_client ''POST'' ''/vectors/delete'' (Some (delete_payload 1 None))])"
  by (simp add: delete_def request_def empty_error_server_def ok_def Let_def
        string_of_nat.simps digit_char_def)

text \<open>
  C9. When the status is in 200..299 and the schema rejects the body, \<open>request\<close>
  raises the \<open>ZodError\<close> of the schema, a kind of error apart from \<open>EmergentDBError\<close>
  and from the transport errors, and returns no value. A search response without
  \<^verbatim>\<open>count\<close> is rejected by \<open>SearchResponseSchema\<close>.
\<close>

theorem request_malformed_response:
  "(srv sent (build_request c m p b) = Response status (Some data) \<and> ok status
      \<and> schema (Some data) = Inl issues
    \<longrightarrow> request c srv m p schema b sent
        = (Inl (ZodError issues), sent @ [build_request c m p b]))
   \<and> (map_of kvs ''count'' = None
    \<longrightarrow> (\<exists>is'. SearchResponseSchema (Some (JObj kvs)) = Inl is'))"
  by (simp add: request_def Let_def SearchResponseSchema_no_count)

theorem request_malformed_response_witness:
  "no_count_server [] (build_request demo_client ''POST'' ''/vectors/search''
       (Some (search_payload [] None)))
     = Response 200 (Some (JObj [(''results'', JArr []), (''namespace'', JStr ''default'')]))
   \<and> ok 200
   \<and> map_of [(''results'', JArr []), (''namespace'', JStr ''default'')] ''count'' = None
   \<and> SearchResponseSchema (Some (JObj [(''results'', JArr []), (''namespace'', JStr ''default'')]))
     = Inl [\<lparr>path = [Key ''count''], code = invalid_type\<rparr>]
   \<and> search demo_client no_count_server [] None []
     = (Inl (ZodError [\<lparr>path = [Key ''count''], code = invalid_type\<rparr>]),
        [] @ [build_request demo_client ''POST'' ''/vectors/search''
                (Some (search_payload [] None))])"
proof -
  have a: "no_count_server [] (build_request demo_client ''POST'' ''/vectors/search''
       (Some (search_payload [] None)))
     = Response 200 (Some (JObj [(''results'', JArr []), (''namespace'', JStr ''default'')]))"
    by (simp add: no_count_server_def)
  have b: "ok 200" by (simp add: ok_def)
  have c: "map_of [(''results'', JArr []), (''namespace'', JStr ''default'')] ''count'' = None"
    by simp
  show ?thesis
    using a b c no_count_issues
      request_malformed_response [where srv = no_count_server and sent = "[]"
        and c = demo_client and m = "''POST''" and p = "''/vectors/search''"
        and b = "Some (search_payload [] None)" and schema = SearchResponseSchema
        and status = 200
        and data = "JObj [(''results'', JArr []), (''namespace'', JStr ''default'')]"
        and issues = "[\<lparr>path = [Key ''count''], code = invalid_type\<rparr>]"
        and kvs = "[(''results'', JArr []), (''namespace'', JStr ''default'')]"]
    unfolding search_def by blast
qed

text \<open>
  C10. A search response with a success status whose \<^verbatim>\<open>results\<close> and \<^verbatim>\<open>count\<close> are
  valid and which has no \<^verbatim>\<open>namespace\<close> property is returned to the caller, with its
  namespace set to \<^verbatim>\<open>"default"\<close>.
\<close>

theorem search_default_namespace:
  assumes "srv sent (build_request c ''POST'' ''/vectors/search''
             (Some (search_payload v options))) = Response status (Some (JObj kvs))"
    and "ok status"
    and "map_of kvs ''namespace'' = None"
    and "z_array SearchResultSchema (map_of kvs ''results'') = Inr rs"
    and "z_number_int (map_of kvs ''count'') = Inr n"
  shows "fst (search c srv v options sent)
         = Inr \<lparr>results = rs, sr_count = n, sr_namespace = ''default''\<rparr>"
  using assms
  by (simp add: search_def request_def Let_def SearchResponseSchema_def z_object_def
        field_def under_def ap_def z_default_def search_response.make_def)

theorem search_default_namespace_witness:
  "fst (search demo_client no_namespace_server [] None [])
   = Inr \<lparr>results = [\<lparr>res_id = 7, score = 1 / 4, metadata = None\<rparr>],
           sr_count = 1, sr_namespace = ''default''\<rparr>"
proof -
  have a: "no_namespace_server [] (build_request demo_client ''POST'' ''/vectors/search''
       (Some (search_payload [] None)))
     = Response 200 (Some (JObj
         [(''results'', JArr [JObj [(''id'', JNum 7), (''score'', JNum (1 / 4))]]),
          (''count'', JNum 1)]))"
    by (simp add: no_namespace_server_def)
  have b: "ok 200" by (simp add: ok_def)
  have c: "map_of [(''results'', JArr [JObj [(''id'', JNum 7), (''score'', JNum (1 / 4))]]),
          (''count'', JNum 1)] ''namespace'' = None"
    by simp
  have d: "z_array SearchResultSchema
      (map_of [(''results'', JArr [JObj [(''id'', JNum 7), (''score'', JNum (1 / 4))]]),
          (''count'', JNum 1)] ''results'')
     = Inr [\<lparr>res_id = 7, score = 1 / 4, metadata = None\<rparr>]"
    by (simp add: z_array_def SearchResultSchema_def z_object_def field_def under_def ap_def
          z_number_int_def z_number_def z_optional_def search_result.make_def)
  have e: "z_number_int
      (map_of [(''results'', JArr [JObj [(''id'', JNum 7), (''score'', JNum (1 / 4))]]),
          (''count'', JNum 1)] ''count'') = Inr 1"
    by (simp add: z_number_int_def)
  from search_default_namespace [where srv = no_namespace_server and sent = "[]"
      and c = demo_client and v = "[]" and options = None, OF a b c d e]
  show ?thesis .
qed

text \<open>
  C3, as the code has it. A batch-insert response that \<open>BatchInsertResultSchema\<close>
  accepts is returned with \<^verbatim>\<open>ids\<close>, \<^verbatim>\<open>count\<close>, \<^verbatim>\<open>new_count\<close> and \<^verbatim>\<open>upserted_count\<close>
  as the integers the body carries; nothing relates them to each other. What the client
  itself guarantees is that the aggregate of \<open>batchInsertAll\<close> has \<open>count\<close> equal to the
  number of its ids.
\<close>

theorem batch_response_fields:
  "(BatchInsertResultSchema (Some (JObj kvs)) = Inr r \<longrightarrow>
      map_of kvs ''ids'' = Some (JArr (map (\<lambda>n. JNum (of_int n)) (ids r)))
      \<and> map_of kvs ''count'' = Some (JNum (of_int (count r)))
      \<and> map_of kvs ''new_count'' = Some (JNum (of_int (new_count r)))
      \<and> map_of kvs ''upserted_count'' = Some (JNum (of_int (upserted_count r))))
   \<and> (batchInsertAll c srv vectors ns sent = (Inr agg, sent') \<longrightarrow>
      all_count agg = int (length (all_ids agg)))"
  using BatchInsertResultSchema_fields batchInsertAll_count by blast

theorem batch_response_fields_witness:
  "BatchInsertResultSchema (Some (JObj
      [(''success'', JBool True), (''ids'', JArr [JNum 1]), (''count'', JNum 5),
       (''namespace'', JStr ''default''), (''new_count'', JNum 1),
       (''upserted_count'', JNum 0)]))
   = Inr \<lparr>success = True, ids = [1], count = 5, namespace = ''default'',
          new_count = 1, upserted_count = 0\<rparr>
   \<and> map_of [(''success'', JBool True), (''ids'', JArr [JNum 1]), (''count'', JNum 5),
       (''namespace'', JStr ''default''), (''new_count'', JNum 1),
       (''upserted_count'', JNum 0)] ''count'' = Some (JNum 5)
   \<and> batchInsertAll demo_client miscounting_server [demo_entry] None []
     = (Inr \<lparr>all_ids = [1], all_count = 1, all_new_count = 1, all_upserted_count = 0\<rparr>,
        [batchInsert_request demo_client None [demo_entry]])
   \<and> all_count \<lparr>all_ids = [1], all_count = 1, all_new_count = 1, all_upserted_count = 0\<rparr>
     = int (length (all_ids
         \<lparr>all_ids = [1], all_count = 1, all_new_count = 1, all_upserted_count = 0\<rparr>))"
proof -
  have a: "BatchInsertResultSchema (Some (JObj
      [(''success'', JBool True), (''ids'', JArr [JNum 1]), (''count'', JNum 5),
       (''namespace'', JStr ''default''), (''new_count'', JNum 1),
       (''upserted_count'', JNum 0)]))
   = Inr \<lparr>success = True, ids = [1], count = 5, namespace = ''default'',
          new_count = 1, upserted_count = 0\<rparr>"
    using batch_response_parsed [of 1 5] by (simp add: batch_response_def)
  note b = batchInsertAll_miscounting
  from batch_response_fields [where kvs = "[(''success'', JBool True), (''ids'', JArr [JNum 1]),
       (''count'', JNum 5), (''namespace'', JStr ''default''), (''new_count'', JNum 1),
       (''upserted_count'', JNum 0)]"
     and r = "\<lparr>success = True, ids = [1], count = 5, namespace = ''default'',
          new_count = 1, upserted_count = 0\<rparr>"
     and c = demo_client and srv = miscounting_server and vectors = "[demo_entry]"
     and ns = None and sent = "[]"
     and agg = "\<lparr>all_ids = [1], all_count = 1, all_new_count = 1, all_upserted_count = 0\<rparr>"
     and sent' = "[batchInsert_request demo_client None [demo_entry]]"] a b
  show ?thesis by simp
qed

text \<open>
  C3 as written fails: a response with one id, \<^verbatim>\<open>count\<close> 5, \<^verbatim>\<open>new_count\<close> 1 and
  \<^verbatim>\<open>upserted_count\<close> 0 is accepted and returned.
\<close>

theorem batch_invariant_counterexample:
  "fst (batchInsert demo_client miscounting_server [demo_entry] None [])
   = Inr \<lparr>success = True, ids = [1], count = 5, namespace = ''default'',
          new_count = 1, upserted_count = 0\<rparr>"
  by (simp add: batchInsert_miscounting)

text \<open>
  C4, as the code has it. \<open>SearchOptionsSchema\<close> rejects options whose \<^verbatim>\<open>k\<close> is below 1
  or above 100, and options whose namespace is longer than 64 characters. \<open>search\<close>
  does not apply it: for every options value it sends its one request, with \<^verbatim>\<open>k\<close> as
  given (10 when absent).
\<close>

theorem search_options_unchecked:
  "(k opts = Some n \<and> (n < 1 \<or> 100 < n) \<longrightarrow>
      (\<exists>issues. SearchOptionsSchema (Some (search_options_json opts)) = Inl issues))
   \<and> (opt_namespace opts = Some s \<and> 64 < length s \<longrightarrow>
      (\<exists>issues. SearchOptionsSchema (Some (search_options_json opts)) = Inl issues))
   \<and> snd (search c srv v (Some opts) sent)
     = sent @ [build_request c ''POST'' ''/vectors/search''
                 (Some (search_payload v (Some opts)))]
   \<and> payload_field ''k'' (build_request c ''POST'' ''/vectors/search''
                             (Some (search_payload v (Some opts))))
     = Some (JNum (case k opts of None \<Rightarrow> 10 | Some n \<Rightarrow> n))"
  using SearchOptionsSchema_k SearchOptionsSchema_namespace
  by (simp add: search_def request_sent search_payload_k)

theorem search_options_unchecked_witness:
  "k out_of_range_options = Some 1000 \<and> (100 :: rat) < 1000
   \<and> opt_namespace out_of_range_options = Some (replicate 65 (CHR ''a''))
   \<and> 64 < length (replicate 65 (CHR ''a''))
   \<and> (\<exists>issues. SearchOptionsSchema (Some (search_options_json out_of_range_options))
                  = Inl issues)
   \<and> payload_field ''k'' (last (snd
         (search demo_client no_namespace_server [] (Some out_of_range_options) [])))
     = Some (JNum 1000)"
proof -
  have a: "k out_of_range_options = Some 1000 \<and> ((1000 :: rat) < 1 \<or> (100 :: rat) < 1000)"
    by (simp add: out_of_range_options_def)
  have b: "opt_namespace out_of_range_options = Some (replicate 65 (CHR ''a''))
      \<and> 64 < length (replicate 65 (CHR ''a''))"
    by (simp add: out_of_range_options_def)
  from search_options_unchecked [where opts = out_of_range_options and n = 1000
      and s = "replicate 65 (CHR ''a'')" and c = demo_client and srv = no_namespace_server
      and v = "[]" and sent = "[]"] a b
  show ?thesis by (simp add: out_of_range_options_def)
qed

text \<open>
  C4 as written fails: \<open>search\<close> with \<^verbatim>\<open>k\<close> 0 sends the request with \<^verbatim>\<open>"k": 0\<close> and
  returns the service's answer.
\<close>

theorem search_k_counterexample:
  "search demo_client no_namespace_server [] (Some zero_k_options) []
   = (Inr \<lparr>results = [\<lparr>res_id = 7, score = 1 / 4, metadata = None\<rparr>],
           sr_count = 1, sr_namespace = ''default''\<rparr>,
      [build_request demo_client ''POST'' ''/vectors/search''
         (Some (JObj [(''vector'', JArr []), (''k'', JNum 0),
                      (''include_metadata'', JBool False)]))])"
  by (simp add: search_def request_def Let_def no_namespace_server_def ok_def
        no_namespace_parsed search_payload_def opt_field_def zero_k_options_def
        namespace_spread_def)

text \<open>
  C1, as the code has it. When \<open>batchInsertAll\<close> returns an aggregate, the input was cut
  into the contiguous chunks \<open>chunks_of 1000 vectors\<close>: their concatenation is the input,
  each has between 1 and 1000 entries and each but the last exactly 1000, and for 2500
  entries their sizes are 1000, 1000, 500. One \<open>batchInsert\<close> was issued per chunk, in
  order, each starting from the requests sent by those before it, and the requests sent
  are exactly these. The aggregate's ids are the chunk results' ids concatenated in order,
  its \<open>new_count\<close> and \<open>upserted_count\<close> are the sums of the chunks' fields, and its
  \<open>count\<close> is the number of ids returned. The claim as written makes \<open>count\<close> the sum of
  the chunks' \<^verbatim>\<open>count\<close> fields, which the code never reads; the two agree when every
  chunk result has as many ids as its \<^verbatim>\<open>count\<close> says.
\<close>

theorem batchInsertAll_chunks:
  assumes "batchInsertAll c srv vectors ns sent = (Inr agg, sent')"
  shows "\<exists>rs.
      concat (chunks_of 1000 vectors) = vectors
    \<and> (\<forall>ch\<in>set (chunks_of 1000 vectors). 0 < length ch \<and> length ch \<le> 1000)
    \<and> (\<forall>j. Suc j < length (chunks_of 1000 vectors)
           \<longrightarrow> length (chunks_of 1000 vectors ! j) = 1000)
    \<and> (length vectors = 2500 \<longrightarrow> map length (chunks_of 1000 vectors) = [1000, 1000, 500])
    \<and> length rs = length (chunks_of 1000 vectors)
    \<and> sent' = sent @ map (batchInsert_request c ns) (chunks_of 1000 vectors)
    \<and> (\<forall>j<length (chunks_of 1000 vectors).
          batchInsert c srv (chunks_of 1000 vectors ! j) ns
            (sent @ map (batchInsert_request c ns) (take j (chunks_of 1000 vectors)))
          = (Inr (rs ! j),
             sent @ map (batchInsert_request c ns) (take (Suc j) (chunks_of 1000 vectors))))
    \<and> all_ids agg = concat (map ids rs)
    \<and> all_count agg = int (length (concat (map ids rs)))
    \<and> ((\<forall>r\<in>set rs. count r = int (length (ids r)))
         \<longrightarrow> all_count agg = sum_list (map count rs))
    \<and> all_new_count agg = sum_list (map new_count rs)
    \<and> all_upserted_count agg = sum_list (map upserted_count rs)"
proof -
  let ?chs = "chunks_of 1000 vectors"
  obtain out s1 where run: "run_chunks c srv ns ?chs [] 0 0 sent = (out, s1)"
    by (cases "run_chunks c srv ns ?chs [] 0 0 sent")
  with assms obtain a n u where out: "out = Inr (a, n, u)"
    by (cases out) (auto simp: batchInsertAll_run_chunks)
  with assms run have agg: "agg = \<lparr>all_ids = a, all_count = int (length a),
      all_new_count = n, all_upserted_count = u\<rparr>" and s1: "s1 = sent'"
    by (auto simp: batchInsertAll_run_chunks)
  from run out s1 have "run_chunks c srv ns ?chs [] 0 0 sent = (Inr (a, n, u), sent')"
    by simp
  from run_chunks_success [OF chunks_of_1000_bound this] obtain rs where rs:
    "length rs = length ?chs"
    "sent' = sent @ map (batchInsert_request c ns) ?chs"
    "\<forall>j<length ?chs.
        batchInsert c srv (?chs ! j) ns (sent @ map (batchInsert_request c ns) (take j ?chs))
        = (Inr (rs ! j), sent @ map (batchInsert_request c ns) (take (Suc j) ?chs))"
    "a = [] @ concat (map ids rs)"
    "n = 0 + sum_list (map new_count rs)"
    "u = 0 + sum_list (map upserted_count rs)"
    by blast
  have whole: "concat ?chs = vectors"
    by (simp add: concat_chunks_of)
  have sizes: "\<forall>ch\<in>set ?chs. 0 < length ch \<and> length ch \<le> 1000"
    using chunks_of_bounds by blast
  have full: "\<forall>j. Suc j < length ?chs \<longrightarrow> length (?chs ! j) = 1000"
    using chunks_of_full by blast
  have three: "length vectors = 2500 \<longrightarrow> map length ?chs = [1000, 1000, 500]"
    using chunks_of_2500 by blast
  have ids: "all_ids agg = concat (map ids rs)"
    and cnt: "all_count agg = int (length (concat (map ids rs)))"
    and new: "all_new_count agg = sum_list (map new_count rs)"
    and ups: "all_upserted_count agg = sum_list (map upserted_count rs)"
    using agg rs(4-6) by simp_all
  have sums: "(\<forall>r\<in>set rs. count r = int (length (ids r)))
      \<longrightarrow> all_count agg = sum_list (map count rs)"
    using cnt sum_list_counts by auto
  from whole sizes full three rs(1-3) ids cnt sums new ups show ?thesis
    by - (rule exI [of _ rs], (intro conjI; assumption))
qed

theorem batchInsertAll_chunks_witness:
  "batchInsertAll demo_client counting_server (replicate 2500 demo_entry) None []
   = (Inr \<lparr>all_ids = [1, 2, 3], all_count = 3, all_new_count = 3, all_upserted_count = 0\<rparr>,
      [batchInsert_request demo_client None (replicate 1000 demo_entry),
       batchInsert_request demo_client None (replicate 1000 demo_entry),
       batchInsert_request demo_client None (replicate 500 demo_entry)])
   \<and> length (replicate 2500 demo_entry) = 2500
   \<and> map length (chunks_of 1000 (replicate 2500 demo_entry)) = [1000, 1000, 500]
   \<and> (\<exists>rs :: batch_insert_result list. length rs = 3
         \<and> (\<forall>r\<in>set rs. count r = int (length (ids r)))
         \<and> concat (map ids rs) = [1, 2, 3]
         \<and> sum_list (map count rs) = 3
         \<and> sum_list (map new_count rs) = 3
         \<and> sum_list (map upserted_count rs) = 0)"
proof -
  let ?v = "replicate 2500 demo_entry"
  let ?q = "batchInsert_request demo_client None"
  note run = batchInsertAll_counting_2500
  from batchInsertAll_chunks [OF run] obtain rs where
    three: "length ?v = 2500 \<longrightarrow> map length (chunks_of 1000 ?v) = [1000, 1000, 500]"
    and len: "length rs = length (chunks_of 1000 ?v)"
    and each: "\<forall>j<length (chunks_of 1000 ?v).
          batchInsert demo_client counting_server (chunks_of 1000 ?v ! j) None
            ([] @ map ?q (take j (chunks_of 1000 ?v)))
          = (Inr (rs ! j), [] @ map ?q (take (Suc j) (chunks_of 1000 ?v)))"
    and ids: "all_ids \<lparr>all_ids = [1, 2, 3], all_count = 3, all_new_count = 3,
                 all_upserted_count = 0\<rparr> = concat (map ids rs)"
    and sums: "(\<forall>r\<in>set rs. count r = int (length (ids r)))
         \<longrightarrow> all_count \<lparr>all_ids = [1, 2, 3], all_count = 3, all_new_count = 3,
                 all_upserted_count = 0\<rparr> = sum_list (map count rs)"
    and new: "all_new_count \<lparr>all_ids = [1, 2, 3], all_count = 3, all_new_count = 3,
                 all_upserted_count = 0\<rparr> = sum_list (map new_count rs)"
    and ups: "all_upserted_count \<lparr>all_ids = [1, 2, 3], all_count = 3, all_new_count = 3,
                 all_upserted_count = 0\<rparr> = sum_list (map upserted_count rs)"
    by (elim exE conjE)
  have len3: "length rs = 3"
    using len by (simp add: chunks_of_replicate_2500)
  have r0: "count (rs ! 0) = 1 \<and> ids (rs ! 0) = [1]"
    using each [rule_format, of 0]
    by (simp add: chunks_of_replicate_2500 batchInsert_counting) (metis batch_insert_result.select_convs(2,3))
  have r1: "count (rs ! 1) = 1 \<and> ids (rs ! 1) = [2]"
    using each [rule_format, of 1]
    by (simp add: chunks_of_replicate_2500 batchInsert_counting) (metis batch_insert_result.select_convs(2,3))
  have r2: "count (rs ! 2) = 1 \<and> ids (rs ! 2) = [3]"
    using each [rule_format, of 2]
    by (simp add: chunks_of_replicate_2500 batchInsert_counting) (metis batch_insert_result.select_convs(2,3))
  have inv: "\<forall>r\<in>set rs. count r = int (length (ids r))"
    using r0 r1 r2 by (subst length_three [OF len3]) simp
  have chunks: "length ?v = 2500 \<and> map length (chunks_of 1000 ?v) = [1000, 1000, 500]"
    using three by simp
  have "length rs = 3
         \<and> (\<forall>r\<in>set rs. count r = int (length (ids r)))
         \<and> concat (map ids rs) = [1, 2, 3]
         \<and> sum_list (map count rs) = 3
         \<and> sum_list (map new_count rs) = 3
         \<and> sum_list (map upserted_count rs) = 0"
    using len3 inv ids sums new ups by simp
  then have "\<exists>rs :: batch_insert_result list. length rs = 3
         \<and> (\<forall>r\<in>set rs. count r = int (length (ids r)))
         \<and> concat (map ids rs) = [1, 2, 3]
         \<and> sum_list (map count rs) = 3
         \<and> sum_list (map new_count rs) = 3
         \<and> sum_list (map upserted_count rs) = 0"
    by (rule exI)
  with run chunks show ?thesis by (intro conjI) simp_all
qed

text \<open>
  C1 as written fails: against a service that answers one chunk with one id and
  \<^verbatim>\<open>count\<close> 5, the aggregate's \<open>count\<close> is 1, not 5.
\<close>

theorem batchInsertAll_count_counterexample:
  "batchInsertAll demo_client miscounting_server [demo_entry] None []
   = (Inr \<lparr>all_ids = [1], all_count = 1, all_new_count = 1, all_upserted_count = 0\<rparr>,
      [batchInsert_request demo_client None [demo_entry]])
   \<and> batchInsert demo_client miscounting_server [demo_entry] None []
   = (Inr \<lparr>success = True, ids = [1], count = 5, namespace = ''default'',
           new_count = 1, upserted_count = 0\<rparr>,
      [batchInsert_request demo_client None [demo_entry]])"
  by (simp add: batchInsertAll_miscounting batchInsert_miscounting)

text \<open>
  C7. If the \<open>batchInsert\<close> of chunk \<open>i\<close> fails, those of the chunks before it having
  succeeded, \<open>batchInsertAll\<close> fails with that very error; the requests sent are those
  of the chunks up to \<open>i\<close> and no other, \<open>i + 1\<close> in number: nothing is sent for a later
  chunk and nothing to undo an earlier one. The outcome is the error alone, without the
  ids and counts gathered so far.
\<close>

theorem batchInsertAll_aborts:
  assumes "i < length (chunks_of 1000 vectors)"
    and "\<forall>j<i. \<exists>r. fst (batchInsert c srv (chunks_of 1000 vectors ! j) ns
            (sent @ map (batchInsert_request c ns) (take j (chunks_of 1000 vectors)))) = Inr r"
    and "fst (batchInsert c srv (chunks_of 1000 vectors ! i) ns
            (sent @ map (batchInsert_request c ns) (take i (chunks_of 1000 vectors)))) = Inl e"
  shows "batchInsertAll c srv vectors ns sent
         = (Inl e, sent @ map (batchInsert_request c ns) (take (Suc i) (chunks_of 1000 vectors)))
       \<and> length (snd (batchInsertAll c srv vectors ns sent)) = length sent + Suc i"
proof -
  from run_chunks_failure [OF chunks_of_1000_bound assms]
  have run: "run_chunks c srv ns (chunks_of 1000 vectors) [] 0 0 sent
      = (Inl e, sent @ map (batchInsert_request c ns) (take (Suc i) (chunks_of 1000 vectors)))" .
  then have "batchInsertAll c srv vectors ns sent
         = (Inl e, sent @ map (batchInsert_request c ns) (take (Suc i) (chunks_of 1000 vectors)))"
    by (simp add: batchInsertAll_run_chunks)
  with assms(1) show ?thesis by simp
qed

theorem batchInsertAll_aborts_witness:
  "(1 :: nat) < length (chunks_of 1000 (replicate 1001 demo_entry))
   \<and> fst (batchInsert demo_client second_refused_server
            (chunks_of 1000 (replicate 1001 demo_entry) ! 0) None [])
     = Inr \<lparr>success = True, ids = [1], count = 1, namespace = ''default'',
            new_count = 1, upserted_count = 0\<rparr>
   \<and> fst (batchInsert demo_client second_refused_server
            (chunks_of 1000 (replicate 1001 demo_entry) ! 1) None
            [batchInsert_request demo_client None (replicate 1000 demo_entry)])
     = Inl (EmergentDBError ''Vector capacity exceeded'' 402
              (JObj [(''error'', JStr ''Vector capacity exceeded'')]))
   \<and> batchInsertAll demo_client second_refused_server (replicate 1001 demo_entry) None []
     = (Inl (EmergentDBError ''Vector capacity exceeded'' 402
               (JObj [(''error'', JStr ''Vector capacity exceeded'')])),
        [batchInsert_request demo_client None (replicate 1000 demo_entry),
         batchInsert_request demo_client None [demo_entry]])"
proof -
  let ?v = "replicate 1001 demo_entry"
  let ?q = "batchInsert_request demo_client None"
  let ?e = "EmergentDBError ''Vector capacity exceeded'' 402
              (JObj [(''error'', JStr ''Vector capacity exceeded'')])"
  have a: "(1 :: nat) < length (chunks_of 1000 ?v)"
    by (simp add: chunks_of_replicate_1001)
  have first: "fst (batchInsert demo_client second_refused_server (chunks_of 1000 ?v ! 0) None [])
     = Inr \<lparr>success = True, ids = [1], count = 1, namespace = ''default'',
            new_count = 1, upserted_count = 0\<rparr>"
    by (simp add: chunks_of_replicate_1001 batchInsert_second_refused)
  have b: "\<forall>j<1. \<exists>r. fst (batchInsert demo_client second_refused_server
            (chunks_of 1000 ?v ! j) None ([] @ map ?q (take j (chunks_of 1000 ?v)))) = Inr r"
    using first by simp
  have c: "fst (batchInsert demo_client second_refused_server (chunks_of 1000 ?v ! 1) None
            ([] @ map ?q (take 1 (chunks_of 1000 ?v)))) = Inl ?e"
    by (simp add: chunks_of_replicate_1001 batchInsert_second_refused)
  from batchInsertAll_aborts [OF a b c]
  have "batchInsertAll demo_client second_refused_server ?v None []
      = (Inl ?e, [?q (replicate 1000 demo_entry), ?q [demo_entry]])"
    by (simp add: chunks_of_replicate_1001)
  moreover from c have "fst (batchInsert demo_client second_refused_server
            (chunks_of 1000 ?v ! 1) None [?q (replicate 1000 demo_entry)]) = Inl ?e"
    by (simp add: chunks_of_replicate_1001)
  ultimately show ?thesis using a first by (intro conjI)
qed

end
